theory Spec2Isabelle
  imports Complex_Main
begin

section \<open>Pan detection and grouping pipeline (video-to-panoramas/lib.py)\<close>

text \<open>
  A shallow embedding of the pan-detection core of
  \<^verbatim>\<open>cloudfunctions/video-to-panoramas/lib.py\<close>.

  Conventions of the embedding.
  \<^item> Python floats are IEEE 754 double-precision numbers. A finite double is the
    \<^typ>\<open>real\<close> it denotes, and the arithmetic of the classifier and of the quality
    gate is the exact operation followed by rounding to the nearest double. Infinities
    and NaN are not values of the model.
  \<^item> Python ints are \<^typ>\<open>int\<close>; positions in the sampled-frame list and
    original frame numbers, which the code only ever counts up from zero, are
    \<^typ>\<open>nat\<close>.
  \<^item> Every exception the modelled code can raise is a value \<open>Inl e\<close> of the result
    type \<open>error + 'a\<close>.
  \<^item> The computer-vision and storage calls (feature matching, Laplacian variance,
    stitching, JPEG encoding and upload, destination naming) are parameters of the model.
\<close>

datatype error =
  ZeroDivisionError
  | TypeError
  | IndexError
  | RuntimeError
  | ExternalError string

subsection \<open>Double-precision arithmetic\<close>

text \<open>
  The binade of a non-zero real \<open>x\<close> is the integer \<open>e\<close> with
  \<open>2 ^ e \<le> |x| < 2 ^ (e + 1)\<close>, found by halving or doubling.
\<close>

function binade_up :: "real \<Rightarrow> int" where
  "binade_up x = (if x < 2 then 0 else binade_up (x / 2) + 1)"
  by pat_completeness auto
termination
proof (relation "measure (\<lambda>x. nat \<lfloor>x\<rfloor>)")
  show "wf (measure (\<lambda>x::real. nat \<lfloor>x\<rfloor>))" by simp
next
  fix x :: real
  assume "\<not> x < 2"
  then have "\<lfloor>x / 2\<rfloor> < \<lfloor>x\<rfloor>" and "0 < \<lfloor>x\<rfloor>"
    by (simp_all add: floor_less_iff) linarith+
  then show "(x / 2, x) \<in> measure (\<lambda>x. nat \<lfloor>x\<rfloor>)" by simp
qed

function binade_down :: "real \<Rightarrow> int" where
  "binade_down x = (if x \<le> 0 \<or> 1 \<le> x then 0 else binade_down (x * 2) - 1)"
  by pat_completeness auto
termination
proof (relation "measure (\<lambda>x. nat \<lceil>1 / x\<rceil>)")
  show "wf (measure (\<lambda>x::real. nat \<lceil>1 / x\<rceil>))" by simp
next
  fix x :: real
  assume "\<not> (x \<le> 0 \<or> 1 \<le> x)"
  then have x: "0 < x" "x < 1" by simp_all
  then have y: "1 < 1 / x" by simp
  have "\<lceil>1 / (x * 2)\<rceil> < \<lceil>1 / x\<rceil>"
  proof (cases "1 / x \<le> 2")
    case True
    then have "1 / (x * 2) \<le> 1" using x by (simp add: field_simps)
    then have "\<lceil>1 / (x * 2)\<rceil> \<le> 1" by (simp add: ceiling_le_iff)
    moreover have "1 < \<lceil>1 / x\<rceil>"
      using y by (subst less_ceiling_iff) (simp only: of_int_1)
    ultimately show ?thesis by linarith
  next
    case False
    then have "1 / (x * 2) \<le> 1 / x - 1" using x by (simp add: field_simps)
    then have "\<lceil>1 / (x * 2)\<rceil> \<le> \<lceil>1 / x - 1\<rceil>" by (rule ceiling_mono)
    then show ?thesis by simp
  qed
  moreover have "0 < \<lceil>1 / x\<rceil>" using x by (subst less_ceiling_iff) simp
  ultimately show "(x * 2, x) \<in> measure (\<lambda>x. nat \<lceil>1 / x\<rceil>)" by simp
qed

declare binade_up.simps [simp del] binade_down.simps [simp del]

definition binade :: "real \<Rightarrow> int" where
  "binade x = (if 1 \<le> \<bar>x\<bar> then binade_up \<bar>x\<bar> else binade_down \<bar>x\<bar>)"

definition pow2 :: "int \<Rightarrow> real" where
  "pow2 k = (if 0 \<le> k then 2 ^ nat k else 1 / 2 ^ nat (- k))"

text \<open>The integer nearest to \<open>y\<close>, the even one of the two when \<open>y\<close> lies halfway.\<close>

definition round_half_even :: "real \<Rightarrow> int" where
  "round_half_even y =
     (let f = \<lfloor>y\<rfloor>; d = y - of_int f
      in if d < 1 / 2 then f else if 1 / 2 < d then f + 1 else if even f then f else f + 1)"

text \<open>
  The double nearest to \<open>x\<close>, ties to the even significand. Doubles have a significand
  of 53 bits, so those of binade \<open>e\<close> are the multiples of \<open>2 ^ (e - 52)\<close>; below the
  smallest normal exponent \<open>- 1022\<close> the spacing stays \<open>2 ^ (- 1074)\<close>. The exponent is
  not bounded from above here: a result beyond the largest double, which the machine
  turns into an infinity, is rounded like any other.
\<close>

definition double_round :: "real \<Rightarrow> real" where
  "double_round x =
     (if x = 0 then 0
      else (let q = pow2 (max (binade x) (- 1022) - 52)
            in of_int (round_half_even (x / q)) * q))"

text \<open>
  Addition, subtraction and multiplication of two doubles, and the conversion of a
  non-negative integer to a double.
\<close>

definition float_add :: "real \<Rightarrow> real \<Rightarrow> real" where
  "float_add a b = double_round (a + b)"

definition float_sub :: "real \<Rightarrow> real \<Rightarrow> real" where
  "float_sub a b = double_round (a - b)"

definition float_mul :: "real \<Rightarrow> real \<Rightarrow> real" where
  "float_mul a b = double_round (a * b)"

definition float_of_nat :: "nat \<Rightarrow> real" where
  "float_of_nat n = double_round (real n)"

subsection \<open>Data model\<close>

text \<open>
  The dictionary returned by \<^verbatim>\<open>pair_motion_metrics\<close>. The homography entry
  \<^verbatim>\<open>H\<close> is never read after the summary is built and is left out.
\<close>

record motion =
  inlier_ratio :: real
  median_u :: real
  median_v :: real
  resid :: real
  scale :: real

text \<open>
  The merged configuration dictionary \<^verbatim>\<open>cfg\<close>. The last two keys have no entry
  in the table of defaults; the code reads them with \<^verbatim>\<open>cfg.get(key, default)\<close>,
  so they are optional here.
\<close>

record config =
  sample_every :: int
  min_group_len :: int
  sharp_thr :: real
  feature :: string
  tau_inliers :: real
  tau_v :: real
  tau_u_min :: real
  tau_u_max :: real
  tau_scale :: real
  tau_parallax :: real
  export_overlap_target :: real
  jpeg_quality :: int
  stitch :: bool
  stitch_warper :: string
  stitch_warper_scale :: real
  export_all_in_group :: bool
  min_pano_aspect_ratio :: "real option"
  max_black_border_percent :: "real option"

text \<open>
  The table \<^verbatim>\<open>DEFAULTS\<close>. The literals \<^verbatim>\<open>0.3\<close>, \<^verbatim>\<open>0.02\<close> and \<^verbatim>\<open>0.4\<close> are not
  doubles and stand for the doubles nearest to them; the other float literals are doubles
  as written.
\<close>

definition default_cfg :: config where
  "default_cfg =
     \<lparr> sample_every = 3, min_group_len = 3, sharp_thr = 20, feature = ''ORB'',
       tau_inliers = double_round (3 / 10), tau_v = 3 / 2, tau_u_min = 15, tau_u_max = 400,
       tau_scale = double_round (2 / 100), tau_parallax = 3 / 2,
       export_overlap_target = double_round (4 / 10),
       jpeg_quality = 92, stitch = False, stitch_warper = ''cylindrical'',
       stitch_warper_scale = 1, export_all_in_group = False,
       min_pano_aspect_ratio = None, max_black_border_percent = None \<rparr>"

subsection \<open>Pan classifier\<close>

text \<open>
  \<^verbatim>\<open>is_horizontal_pan(m, cfg)\<close>. The decision \<open>ok\<close> is computed first, then the
  score; each of the three quotients of the score raises
  \<^verbatim>\<open>ZeroDivisionError\<close> when its threshold is zero. The comparisons of the decision
  are exact on doubles; the difference \<^verbatim>\<open>m["scale"] - 1.0\<close> that the fourth one
  compares is a float subtraction.
\<close>

definition pan_ok :: "motion \<Rightarrow> config \<Rightarrow> bool" where
  "pan_ok m cfg \<longleftrightarrow>
     inlier_ratio m \<ge> tau_inliers cfg
     \<and> \<bar>median_v m\<bar> \<le> tau_v cfg
     \<and> (tau_u_min cfg \<le> \<bar>median_u m\<bar> \<and> \<bar>median_u m\<bar> \<le> tau_u_max cfg)
     \<and> \<bar>float_sub (scale m) 1\<bar> \<le> tau_scale cfg
     \<and> resid m \<le> tau_parallax cfg"

text \<open>The division \<^verbatim>\<open>a / b\<close> of two floats.\<close>

definition py_truediv :: "real \<Rightarrow> real \<Rightarrow> error + real" where
  "py_truediv a b = (if b = 0 then Inl ZeroDivisionError else Inr (double_round (a / b)))"

text \<open>
  The score, every operation rounded, the sum taken from left to right as Python
  evaluates it. The weight \<^verbatim>\<open>1.5\<close> is a double; \<^verbatim>\<open>0.6\<close> and \<^verbatim>\<open>0.4\<close> stand for the
  doubles nearest to them.
\<close>

definition pan_score :: "motion \<Rightarrow> config \<Rightarrow> error + real" where
  "pan_score m cfg =
     (case py_truediv \<bar>median_v m\<bar> (tau_v cfg) of
        Inl e \<Rightarrow> Inl e
      | Inr qv \<Rightarrow>
         (case py_truediv \<bar>float_sub (scale m) 1\<bar> (tau_scale cfg) of
            Inl e \<Rightarrow> Inl e
          | Inr qs \<Rightarrow>
             (case py_truediv (resid m) (tau_parallax cfg) of
                Inl e \<Rightarrow> Inl e
              | Inr qr \<Rightarrow>
                 Inr (float_add
                        (float_add
                           (float_add
                              (float_mul (15 / 10) (inlier_ratio m))
                              (float_mul (double_round (6 / 10)) (float_sub 1 (min qv 1))))
                           (float_mul (double_round (4 / 10)) (float_sub 1 (min qs 1))))
                        (float_mul (double_round (6 / 10)) (float_sub 1 (min qr 1)))))))"

definition is_horizontal_pan :: "motion option \<Rightarrow> config \<Rightarrow> error + (bool \<times> real)" where
  "is_horizontal_pan mo cfg =
     (case mo of
        None \<Rightarrow> Inr (False, 0)
      | Some m \<Rightarrow>
         (let ok = pan_ok m cfg in
          case pan_score m cfg of
            Inl e \<Rightarrow> Inl e
          | Inr score \<Rightarrow> Inr (ok, score)))"

subsection \<open>Panorama quality gate\<close>

text \<open>
  The stitched image as \<^verbatim>\<open>validate_panorama_quality\<close> sees it: the two leading
  entries of its shape and the grey-level buffer (the image itself when it has two
  dimensions, its grey conversion otherwise), flattened.
\<close>

record image =
  img_height :: nat
  img_width :: nat
  img_gray :: "nat list"

text \<open>
  \<^verbatim>\<open>width / height\<close> divides two Python ints: it raises on a zero height and
  otherwise is the double nearest to the exact quotient. The quotient
  \<^verbatim>\<open>black_pixels / total_pixels\<close> is a NumPy division: both counts are converted to
  doubles and divided; on an empty buffer it yields NaN, and the final comparison with
  NaN is false. The product with \<^verbatim>\<open>100\<close> is rounded again. The parameters
  \<open>min_ratio\<close> and \<open>max_black\<close> are the source's
  \<^verbatim>\<open>min_width_height_ratio\<close> and \<^verbatim>\<open>max_black_border_percent\<close>.
\<close>

text \<open>\<^verbatim>\<open>np.sum(gray < 10)\<close>\<close>

definition black_pixel_count :: "nat list \<Rightarrow> nat" where
  "black_pixel_count gray = length (filter (\<lambda>p. p < 10) gray)"

definition validate_panorama_quality :: "image \<Rightarrow> real \<Rightarrow> real \<Rightarrow> error + bool" where
  "validate_panorama_quality pano min_ratio max_black =
     (if img_height pano = 0 then Inl ZeroDivisionError
      else if double_round (real (img_width pano) / real (img_height pano)) < min_ratio
        then Inr False
      else
        (let gray = img_gray pano;
             black_pixels = black_pixel_count gray;
             total_pixels = length gray
         in if total_pixels = 0 then Inr False
            else
              (let black_percentage =
                     float_mul
                       (double_round (float_of_nat black_pixels / float_of_nat total_pixels))
                       100
               in Inr (black_percentage \<le> max_black))))"

subsection \<open>Export selector\<close>

text \<open>
  The loop of \<^verbatim>\<open>pick_subset\<close>, carrying \<^verbatim>\<open>out\<close> and \<^verbatim>\<open>last\<close>.
\<close>

fun pick_loop :: "int \<Rightarrow> nat list \<Rightarrow> nat list \<Rightarrow> nat option \<Rightarrow> nat list" where
  "pick_loop target_step [] out lst = out"
| "pick_loop target_step (idx # rest) out lst =
     (case lst of
        None \<Rightarrow> pick_loop target_step rest (out @ [idx]) (Some idx)
      | Some l \<Rightarrow>
          if int idx - int l \<ge> target_step
          then pick_loop target_step rest (out @ [idx]) (Some idx)
          else pick_loop target_step rest out lst)"

text \<open>
  \<^verbatim>\<open>out[-1]\<close> raises \<^verbatim>\<open>IndexError\<close> on an empty \<^verbatim>\<open>out\<close>, which is evaluated
  before \<^verbatim>\<open>indices[-1]\<close>.
\<close>

definition pick_subset :: "nat list \<Rightarrow> int \<Rightarrow> error + nat list" where
  "pick_subset indices target_step =
     (let out = pick_loop target_step indices [] None in
      if out = [] then Inl IndexError
      else if indices = [] then Inl IndexError
      else if last out \<noteq> last indices then Inr (out @ [last indices])
      else Inr out)"

text \<open>\<^verbatim>\<open>step = max(1, int(round(2)))\<close>\<close>

definition heuristic_step :: int where
  "heuristic_step = max 1 2"

definition select_export :: "config \<Rightarrow> nat list \<Rightarrow> error + nat list" where
  "select_export cfg sampled_idxs =
     (if export_all_in_group cfg then Inr sampled_idxs
      else pick_subset sampled_idxs heuristic_step)"

subsection \<open>Group builder\<close>

text \<open>
  An entry of \<^verbatim>\<open>pair_metrics\<close> is the triple \<^verbatim>\<open>(is_pan, score, m)\<close>; a group is
  the pair \<^verbatim>\<open>(direction, g)\<close>.
\<close>

type_synonym pair_metric = "bool \<times> real \<times> motion option"

type_synonym pan_group = "int \<times> nat list"

text \<open>\<^verbatim>\<open>1 if m["median_u"] >= 0 else -1\<close>\<close>

definition direction_of :: "motion \<Rightarrow> int" where
  "direction_of m = (if median_u m \<ge> 0 then 1 else - 1)"

text \<open>
  The inner loop \<^verbatim>\<open>while j < len(pair_metrics)\<close>, returning the list \<^verbatim>\<open>g\<close> and the
  index \<^verbatim>\<open>j\<close> it stops at. Subscripting an absent summary of a pair flagged as a pan
  raises \<^verbatim>\<open>TypeError\<close>.
\<close>

function extend_group ::
  "pair_metric list \<Rightarrow> int \<Rightarrow> nat list \<Rightarrow> nat \<Rightarrow> error + (nat list \<times> nat)" where
  "extend_group pair_metrics direction g j =
     (if j < length pair_metrics then
        (case pair_metrics ! j of
           (jp0, jp1, jp2) \<Rightarrow>
             if \<not> jp0 then Inr (g, j)
             else
               (case jp2 of
                  None \<Rightarrow> Inl TypeError
                | Some m2 \<Rightarrow>
                    if direction_of m2 \<noteq> direction then Inr (g, j)
                    else extend_group pair_metrics direction (g @ [j + 1]) (j + 1)))
      else Inr (g, j))"
  by pat_completeness auto
termination
  by (relation "measure (\<lambda>(pm, d, g, j). length pm - j)") auto

text \<open>\<^verbatim>\<open>sorted(set(g))\<close>\<close>

definition sorted_set :: "nat list \<Rightarrow> nat list" where
  "sorted_set g = sort (remdups g)"

text \<open>
  The outer loop \<^verbatim>\<open>while i < len(pair_metrics)\<close>, carrying \<^verbatim>\<open>groups\<close>; the first
  argument is \<^verbatim>\<open>cfg["min_group_len"]\<close>. The counter \<^verbatim>\<open>raw_groups_count\<close> is only
  logged and is left out.
\<close>

function build_groups ::
  "int \<Rightarrow> pair_metric list \<Rightarrow> nat \<Rightarrow> pan_group list \<Rightarrow> error + pan_group list" where
  "build_groups mgl pair_metrics i groups =
     (if i < length pair_metrics then
        (case pair_metrics ! i of
           (is_pan, score, mo) \<Rightarrow>
             if \<not> is_pan then build_groups mgl pair_metrics (i + 1) groups
             else
               (case mo of
                  None \<Rightarrow> Inl TypeError
                | Some m \<Rightarrow>
                    (case extend_group pair_metrics (direction_of m) [i, i + 1] (i + 1) of
                       Inl e \<Rightarrow> Inl e
                     | Inr (g, j) \<Rightarrow>
                         build_groups mgl pair_metrics (j + 1)
                           (if int (length (sorted_set g)) \<ge> mgl
                            then groups @ [(direction_of m, sorted_set g)]
                            else groups))))
      else Inr groups)"
  by pat_completeness auto
termination
proof (relation "measure (\<lambda>(mgl, pm, i, groups). Suc (length pm) - i)")
  show "wf (measure (\<lambda>(mgl, pm, i, groups). Suc (length pm) - i))"
    by simp
next
  fix mgl :: int and pair_metrics :: "pair_metric list" and i :: nat
    and groups :: "pan_group list" and x is_pan y score mo
  assume "i < length pair_metrics"
  then show "((mgl, pair_metrics, i + 1, groups), mgl, pair_metrics, i, groups)
      \<in> measure (\<lambda>(mgl, pm, i, groups). Suc (length pm) - i)"
    by simp
next
  fix mgl :: int and pair_metrics :: "pair_metric list" and i :: nat
    and groups :: "pan_group list" and x is_pan y score mo m x2 g j
  assume lt: "i < length pair_metrics"
    and ext: "extend_group pair_metrics (direction_of m) [i, i + 1] (i + 1) = Inr x2"
    and x2: "(g, j) = x2"
  have mono: "extend_group pm d g0 j0 = Inr (g1, j1) \<Longrightarrow> j0 \<le> j1" for pm d g0 j0 g1 j1
  proof (induction pm d g0 j0 rule: extend_group.induct)
    case (1 pm d g0 j0)
    show ?case
    proof (cases "j0 < length pm")
      case False
      with "1.prems" show ?thesis by simp
    next
      case True
      obtain p s mo' where pj: "pm ! j0 = (p, s, mo')"
        by (cases "pm ! j0") auto
      show ?thesis
      proof (cases "p \<and> (\<exists>m2. mo' = Some m2 \<and> direction_of m2 = d)")
        case False
        with "1.prems" True pj show ?thesis
          by (auto split: option.splits if_splits)
      next
        case True
        then obtain m2 where m2: "p" "mo' = Some m2" "direction_of m2 = d" by blast
        from "1.prems" \<open>j0 < length pm\<close> pj m2
        have "extend_group pm d (g0 @ [j0 + 1]) (j0 + 1) = Inr (g1, j1)"
          by simp
        with "1.IH" [OF \<open>j0 < length pm\<close> pj [symmetric] _ _ m2(2)] pj m2
        have "j0 + 1 \<le> j1" by simp
        then show ?thesis by simp
      qed
    qed
  qed
  from ext x2 have "i + 1 \<le> j" using mono [of pair_metrics "direction_of m" "[i, i + 1]" "i + 1" g j]
    by simp
  with lt show "((mgl, pair_metrics, j + 1,
        if mgl \<le> int (length (sorted_set g)) then groups @ [(direction_of m, sorted_set g)]
        else groups), mgl, pair_metrics, i, groups)
      \<in> measure (\<lambda>(mgl, pm, i, groups). Suc (length pm) - i)"
    by simp
qed

declare extend_group.simps [simp del] build_groups.simps [simp del]

definition group_builder :: "config \<Rightarrow> pair_metric list \<Rightarrow> error + pan_group list" where
  "group_builder cfg pair_metrics = build_groups (min_group_len cfg) pair_metrics 0 []"

text \<open>
  The states of the outer loop on a run of the builder: \<open>scanning mgl pm i groups\<close> holds
  when the loop, entered with \<^verbatim>\<open>i = 0\<close> and no group, comes to its head with the counter
  \<open>i\<close> and the list \<open>groups\<close>. A pair that is not a pan moves the counter by one; a pan
  opens a group, and the index \<open>j\<close> at which the inner loop stops moves it to \<open>j + 1\<close>.
\<close>

inductive scanning :: "int \<Rightarrow> pair_metric list \<Rightarrow> nat \<Rightarrow> pan_group list \<Rightarrow> bool"
  for mgl :: int and pair_metrics :: "pair_metric list" where
  start: "scanning mgl pair_metrics 0 []"
| skip: "scanning mgl pair_metrics i groups \<Longrightarrow> i < length pair_metrics \<Longrightarrow>
         pair_metrics ! i = (False, score, mo) \<Longrightarrow>
         scanning mgl pair_metrics (i + 1) groups"
| close: "scanning mgl pair_metrics i groups \<Longrightarrow> i < length pair_metrics \<Longrightarrow>
          pair_metrics ! i = (True, score, Some m) \<Longrightarrow>
          extend_group pair_metrics (direction_of m) [i, i + 1] (i + 1) = Inr (g, j) \<Longrightarrow>
          scanning mgl pair_metrics (j + 1)
            (if int (length (sorted_set g)) \<ge> mgl
             then groups @ [(direction_of m, sorted_set g)]
             else groups)"

code_pred scanning .

subsection \<open>External capabilities and the video\<close>

text \<open>
  The calls into OpenCV and into object storage, as parameters. \<open>laplacian_var\<close> is the
  variance of the Laplacian of a frame's grey conversion; \<open>pair_motion_metrics\<close> is the
  motion estimator; \<open>save_frame_to_gcs\<close> encodes and stores one frame and may raise;
  \<open>stitch_group\<close> returns the stitcher's status and image and may raise;
  \<open>write_and_upload_pano\<close> stands for \<^verbatim>\<open>cv2.imwrite\<close> followed by
  \<^verbatim>\<open>upload_local_file_to_gcs\<close>; \<open>frame_dst\<close> and \<open>pano_dst\<close> stand for the two
  \<^verbatim>\<open>gcs_join\<close> calls that name a frame (prefix, group id, frame number) and a
  panorama (prefix, group id).
\<close>

record 'img env =
  laplacian_var :: "'img \<Rightarrow> real"
  pair_motion_metrics :: "'img \<Rightarrow> 'img \<Rightarrow> string \<Rightarrow> motion option"
  save_frame_to_gcs :: "'img \<Rightarrow> string \<Rightarrow> int \<Rightarrow> error + string"
  stitch_group :: "'img list \<Rightarrow> string \<Rightarrow> real \<Rightarrow> error + (int \<times> image)"
  write_and_upload_pano :: "image \<Rightarrow> string \<Rightarrow> error + string"
  frame_dst :: "string \<Rightarrow> nat \<Rightarrow> nat \<Rightarrow> string"
  pano_dst :: "string \<Rightarrow> nat \<Rightarrow> string"

text \<open>\<^verbatim>\<open>cv2.Stitcher_OK\<close>\<close>

definition Stitcher_OK :: int where
  "Stitcher_OK = 0"

text \<open>
  What \<^verbatim>\<open>cv2.VideoCapture\<close> delivers: whether the file opened, the four metadata
  values, and the frames that \<^verbatim>\<open>cap.read()\<close> yields in order.
\<close>

record 'img video =
  v_opened :: bool
  v_total_frames :: int
  v_fps :: real
  v_width :: int
  v_height :: int
  v_frames :: "'img list"

record video_meta =
  vm_total_frames :: int
  vm_fps :: real
  vm_width :: int
  vm_height :: int
  vm_sample_every :: int

record group_result =
  gr_id :: nat
  gr_direction :: string
  gr_frame_indices :: "nat list"
  gr_frame_uris :: "string list"
  gr_pano_uri :: "string option"

record pipeline_result =
  res_video_meta :: video_meta
  res_groups :: "group_result list"

subsection \<open>Frame sampler and pair classification\<close>

definition frame_is_sharp :: "'img env \<Rightarrow> 'img \<Rightarrow> real \<Rightarrow> bool" where
  "frame_is_sharp env frame thr \<longleftrightarrow> laplacian_var env frame > thr"

text \<open>
  The decoding loop, carrying \<^verbatim>\<open>fidx\<close> and \<^verbatim>\<open>sampled\<close>. The remainder
  \<^verbatim>\<open>fidx % cfg["sample_every"]\<close> raises on a zero stride.
\<close>

fun sample_loop ::
  "'img env \<Rightarrow> config \<Rightarrow> nat \<Rightarrow> 'img list \<Rightarrow> (nat \<times> 'img) list
     \<Rightarrow> error + (nat \<times> 'img) list" where
  "sample_loop env cfg fidx [] sampled = Inr sampled"
| "sample_loop env cfg fidx (frame # rest) sampled =
     (if sample_every cfg = 0 then Inl ZeroDivisionError
      else if int fidx mod sample_every cfg = 0 then
        (if frame_is_sharp env frame (sharp_thr cfg)
         then sample_loop env cfg (fidx + 1) rest (sampled @ [(fidx, frame)])
         else sample_loop env cfg (fidx + 1) rest sampled)
      else sample_loop env cfg (fidx + 1) rest sampled)"

text \<open>
  The loop \<^verbatim>\<open>for i in range(len(sampled) - 1)\<close> over consecutive sampled frames.
\<close>

fun compute_pair_metrics ::
  "'img env \<Rightarrow> config \<Rightarrow> (nat \<times> 'img) list \<Rightarrow> error + pair_metric list" where
  "compute_pair_metrics env cfg (a # b # rest) =
     (case pair_motion_metrics env (snd a) (snd b) (feature cfg) of
        None \<Rightarrow>
          (case compute_pair_metrics env cfg (b # rest) of
             Inl e \<Rightarrow> Inl e
           | Inr ps \<Rightarrow> Inr ((False, 0, None) # ps))
      | Some m \<Rightarrow>
          (case is_horizontal_pan (Some m) cfg of
             Inl e \<Rightarrow> Inl e
           | Inr (is_pan, score) \<Rightarrow>
               (case compute_pair_metrics env cfg (b # rest) of
                  Inl e \<Rightarrow> Inl e
                | Inr ps \<Rightarrow> Inr ((is_pan, score, Some m) # ps))))"
| "compute_pair_metrics env cfg sampled = Inr []"

subsection \<open>Export and optional stitching\<close>

text \<open>
  The upload loop \<^verbatim>\<open>for sidx in export_idxs\<close>, returning
  \<^verbatim>\<open>exported_frame_uris\<close> and \<^verbatim>\<open>exported_frame_indices\<close>.
\<close>

fun upload_frames ::
  "'img env \<Rightarrow> config \<Rightarrow> string \<Rightarrow> (nat \<times> 'img) list \<Rightarrow> nat \<Rightarrow> nat list
     \<Rightarrow> error + (string list \<times> nat list)" where
  "upload_frames env cfg prefix sampled gid [] = Inr ([], [])"
| "upload_frames env cfg prefix sampled gid (sidx # rest) =
     (if sidx < length sampled then
        (case sampled ! sidx of
           (frame_idx, img) \<Rightarrow>
             (case save_frame_to_gcs env img (frame_dst env prefix gid frame_idx)
                     (jpeg_quality cfg) of
                Inl e \<Rightarrow> Inl e
              | Inr uploaded \<Rightarrow>
                  (case upload_frames env cfg prefix sampled gid rest of
                     Inl e \<Rightarrow> Inl e
                   | Inr (uris, idxs) \<Rightarrow> Inr (uploaded # uris, frame_idx # idxs))))
      else Inl IndexError)"

text \<open>
  The value of \<^verbatim>\<open>pano_uri\<close> after the stitching block. The block runs after the
  upload loop, which has already subscripted \<^verbatim>\<open>sampled\<close> at every exported position.
  The default \<^verbatim>\<open>1.2\<close> of the minimum ratio stands for the double nearest to it.
\<close>

definition stitch_stage ::
  "'img env \<Rightarrow> config \<Rightarrow> string \<Rightarrow> (nat \<times> 'img) list \<Rightarrow> nat \<Rightarrow> nat list
     \<Rightarrow> error + string option" where
  "stitch_stage env cfg prefix sampled gid export_idxs =
     (if stitch cfg then
        (let frames_for_stitch = map (\<lambda>s. snd (sampled ! s)) export_idxs in
         if length frames_for_stitch \<ge> 2 then
           (case stitch_group env frames_for_stitch (stitch_warper cfg)
                   (stitch_warper_scale cfg) of
              Inl e \<Rightarrow> Inl e
            | Inr (status, pano) \<Rightarrow>
                if status = Stitcher_OK then
                  (case validate_panorama_quality pano
                          (case min_pano_aspect_ratio cfg of None \<Rightarrow> double_round (12 / 10) | Some r \<Rightarrow> r)
                          (case max_black_border_percent cfg of None \<Rightarrow> 15 | Some b \<Rightarrow> b) of
                     Inl e \<Rightarrow> Inl e
                   | Inr accepted \<Rightarrow>
                       if accepted then
                         (case write_and_upload_pano env pano (pano_dst env prefix gid) of
                            Inl e \<Rightarrow> Inl e
                          | Inr u \<Rightarrow> Inr (Some u))
                       else Inr None)
                else Inr None)
         else Inr None)
      else Inr None)"

text \<open>
  One iteration of \<^verbatim>\<open>for gid, (direction, sampled_idxs) in enumerate(groups, start=1)\<close>.
  The key \<^verbatim>\<open>pano_uri\<close> is written only when the value is truthy, that is neither
  \<^verbatim>\<open>None\<close> nor the empty string.
\<close>

definition export_group ::
  "'img env \<Rightarrow> config \<Rightarrow> string \<Rightarrow> (nat \<times> 'img) list \<Rightarrow> nat \<Rightarrow> pan_group
     \<Rightarrow> error + group_result" where
  "export_group env cfg prefix sampled gid grp =
     (case select_export cfg (snd grp) of
        Inl e \<Rightarrow> Inl e
      | Inr export_idxs \<Rightarrow>
          (case upload_frames env cfg prefix sampled gid export_idxs of
             Inl e \<Rightarrow> Inl e
           | Inr (exported_frame_uris, exported_frame_indices) \<Rightarrow>
               (case stitch_stage env cfg prefix sampled gid export_idxs of
                  Inl e \<Rightarrow> Inl e
                | Inr pano \<Rightarrow>
                    Inr \<lparr> gr_id = gid,
                          gr_direction = (if fst grp = 1 then ''right'' else ''left''),
                          gr_frame_indices = exported_frame_indices,
                          gr_frame_uris = exported_frame_uris,
                          gr_pano_uri =
                            (case pano of
                               None \<Rightarrow> None
                             | Some u \<Rightarrow> if u = [] then None else Some u) \<rparr>)))"

fun export_groups ::
  "'img env \<Rightarrow> config \<Rightarrow> string \<Rightarrow> (nat \<times> 'img) list \<Rightarrow> nat \<Rightarrow> pan_group list
     \<Rightarrow> error + group_result list" where
  "export_groups env cfg prefix sampled gid [] = Inr []"
| "export_groups env cfg prefix sampled gid (grp # rest) =
     (case export_group env cfg prefix sampled gid grp of
        Inl e \<Rightarrow> Inl e
      | Inr r \<Rightarrow>
          (case export_groups env cfg prefix sampled (gid + 1) rest of
             Inl e \<Rightarrow> Inl e
           | Inr rs \<Rightarrow> Inr (r # rs)))"

subsection \<open>The pipeline\<close>

text \<open>
  The stages before the export loop: sampled frames and emitted groups.
\<close>

definition detect_groups ::
  "'img env \<Rightarrow> config \<Rightarrow> 'img video \<Rightarrow> error + ((nat \<times> 'img) list \<times> pan_group list)" where
  "detect_groups env cfg video =
     (if \<not> v_opened video then Inl RuntimeError
      else
        (case sample_loop env cfg 0 (v_frames video) [] of
           Inl e \<Rightarrow> Inl e
         | Inr sampled \<Rightarrow>
             (case compute_pair_metrics env cfg sampled of
                Inl e \<Rightarrow> Inl e
              | Inr pair_metrics \<Rightarrow>
                  (case group_builder cfg pair_metrics of
                     Inl e \<Rightarrow> Inl e
                   | Inr groups \<Rightarrow> Inr (sampled, groups)))))"

text \<open>
  \<^verbatim>\<open>detect_pan_groups_from_video\<close> on the merged configuration.
\<close>

definition detect_pan_groups_from_video ::
  "'img env \<Rightarrow> 'img video \<Rightarrow> string \<Rightarrow> config \<Rightarrow> error + pipeline_result" where
  "detect_pan_groups_from_video env video gcs_output_prefix cfg =
     (case detect_groups env cfg video of
        Inl e \<Rightarrow> Inl e
      | Inr (sampled, groups) \<Rightarrow>
          (case export_groups env cfg gcs_output_prefix sampled 1 groups of
             Inl e \<Rightarrow> Inl e
           | Inr rs \<Rightarrow>
               Inr \<lparr> res_video_meta =
                       \<lparr> vm_total_frames = v_total_frames video, vm_fps = v_fps video,
                         vm_width = v_width video, vm_height = v_height video,
                         vm_sample_every = sample_every cfg \<rparr>,
                     res_groups = rs \<rparr>))"

subsection \<open>Shape of the emitted groups\<close>

text \<open>
  The invariant of the group list: every group is a range of consecutive positions with at
  least two elements, it starts at or after \<open>lo\<close>, ends at or before \<open>n\<close>, and the next
  group starts strictly after its last position.
\<close>

fun groups_chain :: "nat \<Rightarrow> nat \<Rightarrow> pan_group list \<Rightarrow> bool" where
  "groups_chain lo n [] = True"
| "groups_chain lo n (grp # rest) =
     (snd grp = [hd (snd grp)..<Suc (last (snd grp))] \<and> lo \<le> hd (snd grp)
      \<and> hd (snd grp) < last (snd grp) \<and> last (snd grp) \<le> n
      \<and> groups_chain (Suc (last (snd grp))) n rest)"

subsection \<open>A small run\<close>

text \<open>
  Concrete inputs on which the properties below are evaluated: frames are numbered, every
  frame is sharp, every pair of frames yields the same rightward motion summary, storage
  returns the destination it is given, and the stitcher returns the status it is
  parameterised with together with a two-pixel image.
\<close>

definition demo_motion :: motion where
  "demo_motion = \<lparr> inlier_ratio = 1, median_u = 20, median_v = 0, resid = 0, scale = 1 \<rparr>"

definition demo_pano :: image where
  "demo_pano = \<lparr> img_height = 1, img_width = 2, img_gray = [200, 200] \<rparr>"

definition demo_env :: "int \<Rightarrow> nat env" where
  "demo_env status =
     \<lparr> laplacian_var = (\<lambda>frame. 100),
       pair_motion_metrics = (\<lambda>img1 img2 feat. Some demo_motion),
       save_frame_to_gcs = (\<lambda>img dst quality. Inr dst),
       stitch_group = (\<lambda>frames warper warper_scale. Inr (status, demo_pano)),
       write_and_upload_pano = (\<lambda>pano dst. Inr dst),
       frame_dst = (\<lambda>prefix gid frame_idx. prefix @ ''/frame''),
       pano_dst = (\<lambda>prefix gid. prefix @ ''/pano'') \<rparr>"

definition demo_video :: "nat video" where
  "demo_video =
     \<lparr> v_opened = True, v_total_frames = 9, v_fps = 30, v_width = 1920, v_height = 1080,
       v_frames = [0, 1, 2, 3, 4, 5, 6, 7, 8] \<rparr>"

section \<open>Properties\<close>

subsection \<open>Double-precision arithmetic\<close>

lemma binade_up_bounds:
  "1 \<le> x \<Longrightarrow>
     0 \<le> binade_up x \<and> 2 ^ nat (binade_up x) \<le> x \<and> x < 2 * 2 ^ nat (binade_up x)"
proof (induction x rule: binade_up.induct)
  case (1 x)
  show ?case
  proof (cases "x < 2")
    case True
    with "1.prems" show ?thesis by (simp add: binade_up.simps [of x])
  next
    case False
    then have "1 \<le> x / 2" by simp
    from "1.IH" [OF False this] have ih: "0 \<le> binade_up (x / 2)"
      "2 ^ nat (binade_up (x / 2)) \<le> x / 2" "x / 2 < 2 * 2 ^ nat (binade_up (x / 2))"
      by simp_all
    have b: "binade_up x = binade_up (x / 2) + 1"
      using False by (simp add: binade_up.simps [of x])
    have n: "nat (binade_up x) = Suc (nat (binade_up (x / 2)))"
      unfolding b using ih(1) by simp
    show ?thesis unfolding n using ih b by simp
  qed
qed

lemma round_half_even_of_int: "round_half_even (of_int z) = z"
  by (simp add: round_half_even_def)

text \<open>
  The binade brackets the magnitude, and a multiple of a power of two with fewer than 54
  bits is a double.
\<close>

lemma pow2_powi: "pow2 k = 2 powi k"
  by (simp add: pow2_def power_int_def power_one_over inverse_eq_divide)

lemma binade_down_bounds:
  "0 < x \<Longrightarrow> x < 1 \<Longrightarrow>
     binade_down x < 0 \<and> 2 powi binade_down x \<le> x \<and> x < 2 powi (binade_down x + 1)"
proof (induction x rule: binade_down.induct)
  case (1 x)
  have b: "binade_down x = binade_down (x * 2) - 1"
    using "1.prems" by (simp add: binade_down.simps [of x])
  show ?case
  proof (cases "1 \<le> x * 2")
    case True
    then have "binade_down (x * 2) = 0" by (simp add: binade_down.simps [of "x * 2"])
    with b have "binade_down x = - 1" by simp
    with True "1.prems" show ?thesis by simp
  next
    case False
    have n: "\<not> (x \<le> 0 \<or> 1 \<le> x)" using "1.prems" by simp
    from "1.IH" [OF n] False "1.prems"
    have ih: "binade_down (x * 2) < 0" "2 powi binade_down (x * 2) \<le> x * 2"
      "x * 2 < 2 powi (binade_down (x * 2) + 1)"
      by simp_all
    have p: "(2::real) powi (binade_down (x * 2) + 1) = 2 powi binade_down (x * 2) * 2"
      by (simp add: power_int_add)
    have q: "(2::real) powi (binade_down (x * 2) - 1) = 2 powi binade_down (x * 2) / 2"
      by (simp add: power_int_diff)
    show ?thesis unfolding b using ih p q by simp
  qed
qed

lemma binade_bounds:
  assumes "x \<noteq> 0"
  shows "2 powi binade x \<le> \<bar>x\<bar> \<and> \<bar>x\<bar> < 2 powi (binade x + 1)"
proof (cases "1 \<le> \<bar>x\<bar>")
  case True
  from binade_up_bounds [OF True]
  have u: "0 \<le> binade_up \<bar>x\<bar>" "2 ^ nat (binade_up \<bar>x\<bar>) \<le> \<bar>x\<bar>"
    "\<bar>x\<bar> < 2 * 2 ^ nat (binade_up \<bar>x\<bar>)" by simp_all
  have "(2::real) powi binade_up \<bar>x\<bar> = 2 ^ nat (binade_up \<bar>x\<bar>)"
    using u(1) by (simp add: power_int_def)
  moreover have "(2::real) powi (binade_up \<bar>x\<bar> + 1) = 2 * 2 ^ nat (binade_up \<bar>x\<bar>)"
    using u(1) by (simp add: power_int_def nat_add_distrib)
  ultimately show ?thesis using True u by (simp add: binade_def)
next
  case False
  then have "0 < \<bar>x\<bar>" "\<bar>x\<bar> < 1" using assms by simp_all
  from binade_down_bounds [OF this] False show ?thesis by (simp add: binade_def)
qed

lemma double_round_dyadic:
  assumes "\<bar>n\<bar> < 2 ^ 53" and "p \<le> 1074"
  shows "double_round (of_int n / 2 ^ p) = of_int n / 2 ^ p"
proof (cases "n = 0")
  case True
  then show ?thesis by (simp add: double_round_def)
next
  case False
  define x :: real where "x = of_int n / 2 ^ p"
  have x0: "x \<noteq> 0" using False by (simp add: x_def)
  have xp: "x = of_int n * 2 powi (- int p)"
    by (simp add: x_def power_int_minus_divide)
  define b where "b = binade x"
  from binade_bounds [OF x0] have bb: "2 powi b \<le> \<bar>x\<bar>" by (simp add: b_def)
  have "\<bar>real_of_int n\<bar> < 2 ^ 53"
    using assms(1) by (metis of_int_abs of_int_less_numeral_power_cancel_iff)
  then have "\<bar>x\<bar> < 2 ^ 53 * 2 powi (- int p)"
    unfolding xp by (simp add: abs_mult)
  also have "\<dots> = 2 powi (53 - int p)"
    by (simp add: power_int_diff power_int_minus_divide)
  finally have "(2::real) powi b < 2 powi (53 - int p)" using bb by simp
  then have "b < 53 - int p"
    using power_int_increasing [of "53 - int p" b "2::real"] by (cases "b < 53 - int p") auto
  define e where "e = max b (- 1022) - 52"
  have ee: "e \<le> - int p" using \<open>b < 53 - int p\<close> assms(2) by (simp add: e_def)
  define k where "k = nat (- int p - e)"
  have ke: "- int p = int k + e" using ee by (simp add: k_def)
  have q0: "(2::real) powi e \<noteq> 0" by simp
  have "x / 2 powi e = of_int n * (2 powi (int k + e) / 2 powi e)"
    unfolding xp ke by simp
  also have "(2::real) powi (int k + e) / 2 powi e = 2 ^ k"
    by (simp add: power_int_add)
  finally have "x / 2 powi e = of_int (n * 2 ^ k)" by simp
  then have r: "round_half_even (x / 2 powi e) = n * 2 ^ k"
    using round_half_even_of_int [of "n * 2 ^ k"] by simp
  have "double_round x = of_int (n * 2 ^ k) * 2 powi e"
    using x0 r by (simp add: double_round_def Let_def pow2_powi b_def [symmetric] e_def [symmetric])
  also have "\<dots> = of_int n * (2 ^ k * 2 powi e)" by simp
  also have "2 ^ k * (2::real) powi e = 2 powi (int k + e)"
    by (simp add: power_int_add)
  also have "of_int n * 2 powi (int k + e) = x" unfolding xp ke ..
  finally show ?thesis unfolding x_def .
qed

lemma double_dyadic:
  assumes "double_round s = s" and "s \<noteq> 0" and "binade s = b" and "- 1022 \<le> b" and "b \<le> 52"
  shows "\<exists>k. s = of_int k / 2 ^ nat (52 - b)"
proof -
  have q: "pow2 (max (binade s) (- 1022) - 52) = 1 / 2 ^ nat (52 - b)"
    using assms(3,4,5) by (auto simp add: pow2_def max_def)
  from assms(1,2) have "s = of_int (round_half_even (s / (1 / 2 ^ nat (52 - b)))) * (1 / 2 ^ nat (52 - b))"
    unfolding double_round_def q Let_def by simp
  then show ?thesis by (metis times_divide_eq_right mult.right_neutral)
qed

text \<open>A count below \<open>2 ^ 53\<close> is converted to a double without rounding.\<close>

lemma double_round_of_nat:
  assumes "n < 2 ^ 53"
  shows "double_round (real n) = real n"
proof -
  have "\<bar>int n\<bar> < 2 ^ 53" using assms by simp
  from double_round_dyadic [OF this, of 0] show ?thesis by simp
qed

text \<open>
  Subtracting one from a double between \<open>1 / 2\<close> and \<open>2\<close> is exact.
\<close>

lemma float_sub_one_exact:
  assumes "double_round s = s" and "1 / 2 \<le> s" and "s \<le> 2"
  shows "float_sub s 1 = s - 1"
proof -
  have s0: "s \<noteq> 0" using assms(2) by simp
  consider "s = 2" | "1 \<le> s" "s < 2" | "s < 1" using assms(3) by linarith
  then show ?thesis
  proof cases
    case 1
    then show ?thesis
      by (simp add: float_sub_def double_round_def binade_def binade_up.simps pow2_def
          round_half_even_def Let_def)
  next
    case 2
    then have "binade s = 0" by (simp add: binade_def binade_up.simps [of s])
    from double_dyadic [OF assms(1) s0 this] obtain k where k: "s = of_int k / 2 ^ 52"
      by auto
    from 2 k have "2 ^ 52 \<le> real_of_int k" "real_of_int k < 2 ^ 53"
      by (simp_all add: field_simps)
    then have kb: "2 ^ 52 \<le> k" "k < 2 ^ 53"
      by (simp_all add: numeral_power_le_of_int_cancel_iff of_int_less_numeral_power_cancel_iff)
    have e: "s - 1 = of_int (k - 2 ^ 52) / 2 ^ 52" unfolding k by (simp add: field_simps)
    have "\<bar>k - 2 ^ 52\<bar> < 2 ^ 53" using kb by simp
    then have "double_round (of_int (k - 2 ^ 52) / 2 ^ 52) = of_int (k - 2 ^ 52) / 2 ^ 52"
      by (rule double_round_dyadic) simp
    then show ?thesis unfolding float_sub_def e .
  next
    case 3
    with assms(2) have "binade_down s = - 1"
      by (simp add: binade_down.simps [of s] binade_down.simps [of "s * 2"])
    with 3 assms(2) have "binade s = - 1" by (simp add: binade_def)
    from double_dyadic [OF assms(1) s0 this] obtain k where k: "s = of_int k / 2 ^ 53"
      by auto
    from 3 assms(2) k have "2 ^ 52 \<le> real_of_int k" "real_of_int k < 2 ^ 53"
      by (simp_all add: field_simps)
    then have kb: "2 ^ 52 \<le> k" "k < 2 ^ 53"
      by (simp_all add: numeral_power_le_of_int_cancel_iff of_int_less_numeral_power_cancel_iff)
    have e: "s - 1 = of_int (k - 2 ^ 53) / 2 ^ 53" unfolding k by (simp add: field_simps)
    have "\<bar>k - 2 ^ 53\<bar> < 2 ^ 53" using kb by simp
    then have "double_round (of_int (k - 2 ^ 53) / 2 ^ 53) = of_int (k - 2 ^ 53) / 2 ^ 53"
      by (rule double_round_dyadic) simp
    then show ?thesis unfolding float_sub_def e .
  qed
qed

lemma double_round_zero: "double_round 0 = 0"
  by (simp add: double_round_def)

text \<open>Evaluation of \<open>double_round\<close> at a rational number, and the literals of the code.\<close>

lemmas double_round_eval =
  double_round_def binade_def binade_up.simps binade_down.simps pow2_def
  round_half_even_def Let_def

lemma double_round_literals:
  "double_round (3 / 10) = 5404319552844595 / 18014398509481984"
  "double_round (1 / 50) = 5764607523034235 / 288230376151711744"
  "double_round (2 / 5) = 3602879701896397 / 9007199254740992"
  "double_round (3 / 5) = 5404319552844595 / 9007199254740992"
  "double_round (6 / 5) = 5404319552844595 / 4503599627370496"
  by (simp_all add: double_round_eval)

lemma double_round_one: "double_round 1 = 1"
  by (simp add: double_round_eval)

subsection \<open>Pan classifier\<close>

text \<open>
  Claim C1, as the code has it. For a present motion summary and a configuration whose
  three divisor thresholds \<open>tau_v\<close>, \<open>tau_scale\<close> and \<open>tau_parallax\<close> are non-zero, the
  classifier returns, and its decision is true exactly when the five conditions hold:
  inlier ratio at least \<open>tau_inliers\<close>, vertical displacement at most \<open>tau_v\<close> in
  magnitude, horizontal displacement between \<open>tau_u_min\<close> and \<open>tau_u_max\<close> in
  magnitude, scale within \<open>tau_scale\<close> of one, the difference of the scale and one being
  the double that the subtraction yields, residual at most \<open>tau_parallax\<close>. For a scale
  that is a double between \<open>1 / 2\<close> and \<open>2\<close> the subtraction is exact, and the fourth
  condition is \<open>|scale - 1| \<le> tau_scale\<close> as it reads. For an absent summary the
  classifier returns the decision false with score zero.
\<close>

theorem is_horizontal_pan_decision:
  "(tau_v cfg \<noteq> 0 \<and> tau_scale cfg \<noteq> 0 \<and> tau_parallax cfg \<noteq> 0 \<longrightarrow>
      (\<exists>score. is_horizontal_pan (Some m) cfg =
         Inr (inlier_ratio m \<ge> tau_inliers cfg
              \<and> \<bar>median_v m\<bar> \<le> tau_v cfg
              \<and> tau_u_min cfg \<le> \<bar>median_u m\<bar> \<and> \<bar>median_u m\<bar> \<le> tau_u_max cfg
              \<and> \<bar>float_sub (scale m) 1\<bar> \<le> tau_scale cfg
              \<and> resid m \<le> tau_parallax cfg, score)))
   \<and> (tau_v cfg \<noteq> 0 \<and> tau_scale cfg \<noteq> 0 \<and> tau_parallax cfg \<noteq> 0
        \<and> double_round (scale m) = scale m \<and> 1 / 2 \<le> scale m \<and> scale m \<le> 2 \<longrightarrow>
      (\<exists>score. is_horizontal_pan (Some m) cfg =
         Inr (inlier_ratio m \<ge> tau_inliers cfg
              \<and> \<bar>median_v m\<bar> \<le> tau_v cfg
              \<and> tau_u_min cfg \<le> \<bar>median_u m\<bar> \<and> \<bar>median_u m\<bar> \<le> tau_u_max cfg
              \<and> \<bar>scale m - 1\<bar> \<le> tau_scale cfg
              \<and> resid m \<le> tau_parallax cfg, score)))
   \<and> is_horizontal_pan None cfg = Inr (False, 0)"
proof (intro conjI impI)
  assume "tau_v cfg \<noteq> 0 \<and> tau_scale cfg \<noteq> 0 \<and> tau_parallax cfg \<noteq> 0"
  then show "\<exists>score. is_horizontal_pan (Some m) cfg =
         Inr (inlier_ratio m \<ge> tau_inliers cfg
              \<and> \<bar>median_v m\<bar> \<le> tau_v cfg
              \<and> tau_u_min cfg \<le> \<bar>median_u m\<bar> \<and> \<bar>median_u m\<bar> \<le> tau_u_max cfg
              \<and> \<bar>float_sub (scale m) 1\<bar> \<le> tau_scale cfg
              \<and> resid m \<le> tau_parallax cfg, score)"
    by (simp add: is_horizontal_pan_def pan_score_def py_truediv_def pan_ok_def)
next
  assume a: "tau_v cfg \<noteq> 0 \<and> tau_scale cfg \<noteq> 0 \<and> tau_parallax cfg \<noteq> 0
        \<and> double_round (scale m) = scale m \<and> 1 / 2 \<le> scale m \<and> scale m \<le> 2"
  then have "float_sub (scale m) 1 = scale m - 1"
    using float_sub_one_exact [of "scale m"] by simp
  with a show "\<exists>score. is_horizontal_pan (Some m) cfg =
         Inr (inlier_ratio m \<ge> tau_inliers cfg
              \<and> \<bar>median_v m\<bar> \<le> tau_v cfg
              \<and> tau_u_min cfg \<le> \<bar>median_u m\<bar> \<and> \<bar>median_u m\<bar> \<le> tau_u_max cfg
              \<and> \<bar>scale m - 1\<bar> \<le> tau_scale cfg
              \<and> resid m \<le> tau_parallax cfg, score)"
    by (simp add: is_horizontal_pan_def pan_score_def py_truediv_def pan_ok_def)
next
  show "is_horizontal_pan None cfg = Inr (False, 0)"
    by (simp add: is_horizontal_pan_def)
qed

theorem is_horizontal_pan_decision_witness:
  "tau_v default_cfg \<noteq> 0 \<and> tau_scale default_cfg \<noteq> 0 \<and> tau_parallax default_cfg \<noteq> 0
   \<and> double_round (scale \<lparr> inlier_ratio = 1, median_u = 20, median_v = 0, resid = 0, scale = 1 \<rparr>)
       = scale \<lparr> inlier_ratio = 1, median_u = 20, median_v = 0, resid = 0, scale = 1 \<rparr>
   \<and> 1 / 2 \<le> scale \<lparr> inlier_ratio = 1, median_u = 20, median_v = 0, resid = 0, scale = 1 \<rparr>
   \<and> scale \<lparr> inlier_ratio = 1, median_u = 20, median_v = 0, resid = 0, scale = 1 \<rparr> \<le> 2
   \<and> (\<exists>score. is_horizontal_pan
         (Some \<lparr> inlier_ratio = 1, median_u = 20, median_v = 0, resid = 0, scale = 1 \<rparr>)
         default_cfg = Inr (True, score))
   \<and> is_horizontal_pan None default_cfg = Inr (False, 0)"
  using is_horizontal_pan_decision
    [of default_cfg "\<lparr> inlier_ratio = 1, median_u = 20, median_v = 0, resid = 0, scale = 1 \<rparr>"]
  by (simp add: default_cfg_def float_sub_def double_round_zero double_round_one
      double_round_literals)

text \<open>
  Claim C1 as stated fails in two ways. On a configuration with \<open>tau_v = 0\<close> the first
  summary below meets all five conditions, yet the call raises
  \<^verbatim>\<open>ZeroDivisionError\<close> while computing the score and returns no decision. And with
  \<open>tau_scale = 0.75\<close> the second summary, whose scale is the double
  \<open>1 / 4 - 1 / 2 ^ 55\<close>, is further than \<open>tau_scale\<close> from one, yet the call returns
  the decision true: the subtraction \<^verbatim>\<open>m["scale"] - 1.0\<close> rounds to \<open>- 0.75\<close>.
\<close>

theorem is_horizontal_pan_decision_fails:
  "inlier_ratio \<lparr> inlier_ratio = 1, median_u = 20, median_v = 0, resid = 0, scale = 1 \<rparr>
      \<ge> tau_inliers (default_cfg \<lparr> tau_v := 0 \<rparr>)
   \<and> \<bar>median_v \<lparr> inlier_ratio = 1, median_u = 20, median_v = 0, resid = 0, scale = 1 \<rparr>\<bar>
      \<le> tau_v (default_cfg \<lparr> tau_v := 0 \<rparr>)
   \<and> tau_u_min (default_cfg \<lparr> tau_v := 0 \<rparr>)
      \<le> \<bar>median_u \<lparr> inlier_ratio = 1, median_u = 20, median_v = 0, resid = 0, scale = 1 \<rparr>\<bar>
   \<and> \<bar>median_u \<lparr> inlier_ratio = 1, median_u = 20, median_v = 0, resid = 0, scale = 1 \<rparr>\<bar>
      \<le> tau_u_max (default_cfg \<lparr> tau_v := 0 \<rparr>)
   \<and> \<bar>scale \<lparr> inlier_ratio = 1, median_u = 20, median_v = 0, resid = 0, scale = 1 \<rparr> - 1\<bar>
      \<le> tau_scale (default_cfg \<lparr> tau_v := 0 \<rparr>)
   \<and> resid \<lparr> inlier_ratio = 1, median_u = 20, median_v = 0, resid = 0, scale = 1 \<rparr>
      \<le> tau_parallax (default_cfg \<lparr> tau_v := 0 \<rparr>)
   \<and> is_horizontal_pan
        (Some \<lparr> inlier_ratio = 1, median_u = 20, median_v = 0, resid = 0, scale = 1 \<rparr>)
        (default_cfg \<lparr> tau_v := 0 \<rparr>) = Inl ZeroDivisionError
   \<and> double_round (1 / 4 - 1 / 2 ^ 55) = 1 / 4 - 1 / 2 ^ 55
   \<and> tau_scale (default_cfg \<lparr> tau_scale := 3 / 4 \<rparr>)
      < \<bar>scale \<lparr> inlier_ratio = 1, median_u = 20, median_v = 0, resid = 0,
            scale = 1 / 4 - 1 / 2 ^ 55 \<rparr> - 1\<bar>
   \<and> float_sub (scale \<lparr> inlier_ratio = 1, median_u = 20, median_v = 0, resid = 0,
            scale = 1 / 4 - 1 / 2 ^ 55 \<rparr>) 1 = - (3 / 4)
   \<and> is_horizontal_pan
        (Some \<lparr> inlier_ratio = 1, median_u = 20, median_v = 0, resid = 0,
            scale = 1 / 4 - 1 / 2 ^ 55 \<rparr>)
        (default_cfg \<lparr> tau_scale := 3 / 4 \<rparr>)
       = Inr (True, 3039929748475085 / 1125899906842624)"
  by (simp add: default_cfg_def is_horizontal_pan_def pan_ok_def pan_score_def py_truediv_def
      float_add_def float_sub_def float_mul_def double_round_literals double_round_eval)

text \<open>
  Claim C7, as the code has it. For a present motion summary and positive thresholds
  \<open>tau_v\<close>, \<open>tau_scale\<close> and \<open>tau_parallax\<close>, the classifier returns and its score is
  the weighted sum
  \<open>1.5 * inlier_ratio + 0.6 * (1 - min (|median_v| / tau_v) 1)
   + 0.4 * (1 - min (|scale - 1| / tau_scale) 1) + 0.6 * (1 - min (resid / tau_parallax) 1)\<close>
  computed in double precision: every difference, quotient and product is rounded, and
  the four terms are added from left to right, each partial sum rounded.
\<close>

theorem is_horizontal_pan_score_rounded:
  assumes "0 < tau_v cfg" and "0 < tau_scale cfg" and "0 < tau_parallax cfg"
  shows "is_horizontal_pan (Some m) cfg =
     Inr (pan_ok m cfg,
          float_add
            (float_add
               (float_add
                  (float_mul 1.5 (inlier_ratio m))
                  (float_mul (double_round 0.6)
                     (float_sub 1 (min (double_round (\<bar>median_v m\<bar> / tau_v cfg)) 1))))
               (float_mul (double_round 0.4)
                  (float_sub 1
                     (min (double_round (\<bar>float_sub (scale m) 1\<bar> / tau_scale cfg)) 1))))
            (float_mul (double_round 0.6)
               (float_sub 1 (min (double_round (resid m / tau_parallax cfg)) 1))))"
  using assms by (simp add: is_horizontal_pan_def pan_score_def py_truediv_def)

theorem is_horizontal_pan_score_rounded_witness:
  "0 < tau_v default_cfg \<and> 0 < tau_scale default_cfg \<and> 0 < tau_parallax default_cfg
   \<and> is_horizontal_pan
        (Some \<lparr> inlier_ratio = 1 / 2, median_u = 20, median_v = 3 / 4, resid = 3 / 2,
                scale = 1 \<rparr>) default_cfg
       = Inr (True, 1632554864921805 / 1125899906842624)"
  using is_horizontal_pan_score_rounded
    [of default_cfg "\<lparr> inlier_ratio = 1 / 2, median_u = 20, median_v = 3 / 4, resid = 3 / 2,
                scale = 1 \<rparr>"]
  by (simp add: default_cfg_def pan_ok_def float_add_def float_sub_def float_mul_def
      double_round_literals double_round_eval)

text \<open>
  Claim C7 as stated fails. On the summary below, whose fields are doubles, with the
  default thresholds, the exact value of the weighted sum is \<open>7 / 4\<close>, itself a double,
  while the score the classifier returns is the double just below it
  (\<^verbatim>\<open>1.7499999999999998\<close>).
\<close>

theorem is_horizontal_pan_score_inexact:
  "0 < tau_v default_cfg \<and> 0 < tau_scale default_cfg \<and> 0 < tau_parallax default_cfg
   \<and> 1.5 * inlier_ratio
          \<lparr> inlier_ratio = 1 / 2, median_u = 20, median_v = 1 / 2, resid = 1, scale = 1 \<rparr>
       + 0.6 * (1 - min (\<bar>median_v
          \<lparr> inlier_ratio = 1 / 2, median_u = 20, median_v = 1 / 2, resid = 1, scale = 1 \<rparr>\<bar>
            / tau_v default_cfg) 1)
       + 0.4 * (1 - min (\<bar>scale
          \<lparr> inlier_ratio = 1 / 2, median_u = 20, median_v = 1 / 2, resid = 1, scale = 1 \<rparr>
            - 1\<bar> / tau_scale default_cfg) 1)
       + 0.6 * (1 - min (resid
          \<lparr> inlier_ratio = 1 / 2, median_u = 20, median_v = 1 / 2, resid = 1, scale = 1 \<rparr>
            / tau_parallax default_cfg) 1)
       = 7 / 4
   \<and> double_round (7 / 4) = 7 / 4
   \<and> is_horizontal_pan
        (Some \<lparr> inlier_ratio = 1 / 2, median_u = 20, median_v = 1 / 2, resid = 1, scale = 1 \<rparr>)
        default_cfg
       = Inr (True, 7881299347898367 / 4503599627370496)
   \<and> (7881299347898367 / 4503599627370496 :: real) \<noteq> 7 / 4"
  by (simp add: default_cfg_def is_horizontal_pan_def pan_ok_def pan_score_def py_truediv_def
      float_add_def float_sub_def float_mul_def double_round_literals double_round_eval)

subsection \<open>Export selector\<close>

lemma pick_loop_prefix: "\<exists>ys. pick_loop step xs out lst = out @ ys"
proof (induction xs arbitrary: out lst)
  case Nil
  show ?case by simp
next
  case (Cons x xs)
  from Cons [of "out @ [x]" "Some x"] obtain ys where
    a: "pick_loop step xs (out @ [x]) (Some x) = out @ (x # ys)" by auto
  from Cons [of out lst] obtain zs where
    b: "pick_loop step xs out lst = out @ zs" by auto
  show ?case using a b by (cases lst) auto
qed

lemma pick_subset_nonempty:
  assumes "indices \<noteq> []"
  shows "\<exists>out. pick_subset indices step = Inr out \<and> out \<noteq> []
           \<and> hd out = hd indices \<and> last out = last indices"
proof -
  from assms obtain x rest where xs: "indices = x # rest" by (cases indices) auto
  obtain ys where ys: "pick_loop step rest [x] (Some x) = x # ys"
    using pick_loop_prefix [of step rest "[x]" "Some x"] by auto
  have pl: "pick_loop step indices [] None = x # ys"
    using xs ys by simp
  show ?thesis
    unfolding pick_subset_def Let_def pl using xs by simp
qed

text \<open>
  Claim C4. For a non-empty strictly increasing list of sampled positions and a step of at
  least one, \<^verbatim>\<open>pick_subset\<close> returns a list that contains the first and the last
  position of its input; the selector calls it (with the fixed step, itself at least one)
  when \<open>export_all_in_group\<close> is false, and returns the positions unchanged when it is
  true.
\<close>

theorem select_export_endpoints:
  assumes "indices \<noteq> []" and "sorted_wrt (<) indices" and "1 \<le> step"
  shows "(\<exists>out. pick_subset indices step = Inr out
            \<and> hd indices \<in> set out \<and> last indices \<in> set out)
         \<and> (\<not> export_all_in_group cfg \<longrightarrow>
               select_export cfg indices = pick_subset indices heuristic_step)
         \<and> 1 \<le> heuristic_step
         \<and> (export_all_in_group cfg \<longrightarrow> select_export cfg indices = Inr indices)"
proof -
  obtain out where o: "pick_subset indices step = Inr out" "out \<noteq> []"
      "hd out = hd indices" "last out = last indices"
    using pick_subset_nonempty [OF assms(1)] by blast
  have "hd indices \<in> set out" using o(2,3) hd_in_set by metis
  moreover have "last indices \<in> set out" using o(2,4) last_in_set by metis
  ultimately show ?thesis using o(1)
    by (simp add: select_export_def heuristic_step_def)
qed

theorem select_export_endpoints_witness:
  "[0, 1, 2, 3, 4 :: nat] \<noteq> [] \<and> sorted_wrt (<) [0, 1, 2, 3, 4 :: nat] \<and> (1::int) \<le> 3
   \<and> pick_subset [0, 1, 2, 3, 4] 3 = Inr [0, 3, 4]
   \<and> select_export default_cfg [0, 1, 2, 3, 4] = Inr [0, 2, 4]
   \<and> select_export (default_cfg \<lparr> export_all_in_group := True \<rparr>) [0, 1, 2, 3, 4]
       = Inr [0, 1, 2, 3, 4]"
  using select_export_endpoints [of "[0, 1, 2, 3, 4]" 3 default_cfg]
    select_export_endpoints
      [of "[0, 1, 2, 3, 4]" 3 "default_cfg \<lparr> export_all_in_group := True \<rparr>"]
  by (simp add: pick_subset_def select_export_def heuristic_step_def default_cfg_def)

subsection \<open>Panorama quality gate\<close>

lemma percentage_of_fifth: "float_mul (double_round (1 / 5)) 100 = 20"
  by (simp add: float_mul_def double_round_eval)

text \<open>
  Claim C5, as the code has it. For a stitched image (positive height, non-empty pixel
  buffer) the gate returns, and it accepts exactly when the double nearest to width over
  height is at least the minimum ratio and the percentage of pixels with grey level below
  10, as the code computes it in double precision (the two counts converted, their quotient
  rounded, the product with 100 rounded), is at most the maximum. In particular a square
  image is rejected under the ratio 1.2 whatever its pixels, and an image of fewer than
  \<open>2 ^ 53\<close> pixels of which 20 percent have a grey level below 10 is rejected under the
  limit 15.0.
\<close>

theorem validate_panorama_quality_rounded:
  assumes "0 < img_height pano" and "img_gray pano \<noteq> []"
  shows "validate_panorama_quality pano min_ratio max_black =
           Inr (double_round (real (img_width pano) / real (img_height pano)) \<ge> min_ratio
                \<and> float_mul
                     (double_round
                        (float_of_nat (black_pixel_count (img_gray pano))
                           / float_of_nat (length (img_gray pano))))
                     100 \<le> max_black)
    \<and> (img_width pano = img_height pano \<longrightarrow>
           validate_panorama_quality pano (double_round 1.2) max_black = Inr False)
    \<and> (length (img_gray pano) < 2 ^ 53
         \<and> real (black_pixel_count (img_gray pano)) / real (length (img_gray pano)) * 100 = 20
         \<longrightarrow> validate_panorama_quality pano min_ratio 15.0 = Inr False)"
proof (intro conjI impI)
  show "validate_panorama_quality pano min_ratio max_black =
           Inr (double_round (real (img_width pano) / real (img_height pano)) \<ge> min_ratio
                \<and> float_mul
                     (double_round
                        (float_of_nat (black_pixel_count (img_gray pano))
                           / float_of_nat (length (img_gray pano))))
                     100 \<le> max_black)"
    using assms by (auto simp add: validate_panorama_quality_def Let_def)
next
  assume "img_width pano = img_height pano"
  then have "real (img_width pano) / real (img_height pano) = 1"
    using assms(1) by simp
  then show "validate_panorama_quality pano (double_round 1.2) max_black = Inr False"
    using assms(1)
    by (simp add: validate_panorama_quality_def double_round_one double_round_literals)
next
  assume a: "length (img_gray pano) < 2 ^ 53
     \<and> real (black_pixel_count (img_gray pano)) / real (length (img_gray pano)) * 100 = 20"
  have "black_pixel_count (img_gray pano) \<le> length (img_gray pano)"
    by (simp add: black_pixel_count_def)
  with a have b: "black_pixel_count (img_gray pano) < 2 ^ 53" by simp
  have q: "real (black_pixel_count (img_gray pano)) / real (length (img_gray pano)) = 1 / 5"
    using a assms(2) by (simp add: field_simps)
  have "float_mul
      (double_round
         (float_of_nat (black_pixel_count (img_gray pano))
            / float_of_nat (length (img_gray pano))))
      100 = 20"
    using a b by (simp only: float_of_nat_def double_round_of_nat q percentage_of_fifth)
  then show "validate_panorama_quality pano min_ratio 15.0 = Inr False"
    using assms by (simp add: validate_panorama_quality_def Let_def)
qed

theorem validate_panorama_quality_rounded_witness:
  "0 < img_height \<lparr> img_height = 1, img_width = 1, img_gray = [255] \<rparr>
   \<and> img_gray \<lparr> img_height = 1, img_width = 1, img_gray = [255] \<rparr> \<noteq> []
   \<and> img_width \<lparr> img_height = 1, img_width = 1, img_gray = [255] \<rparr>
       = img_height \<lparr> img_height = 1, img_width = 1, img_gray = [255] \<rparr>
   \<and> validate_panorama_quality \<lparr> img_height = 1, img_width = 1, img_gray = [255] \<rparr>
        (double_round 1.2) 15.0
       = Inr False
   \<and> 0 < img_height \<lparr> img_height = 1, img_width = 5, img_gray = [0, 200, 200, 200, 200] \<rparr>
   \<and> img_gray \<lparr> img_height = 1, img_width = 5, img_gray = [0, 200, 200, 200, 200] \<rparr> \<noteq> []
   \<and> length (img_gray \<lparr> img_height = 1, img_width = 5, img_gray = [0, 200, 200, 200, 200] \<rparr>)
       < 2 ^ 53
   \<and> real (black_pixel_count
          (img_gray \<lparr> img_height = 1, img_width = 5, img_gray = [0, 200, 200, 200, 200] \<rparr>))
        / real (length
          (img_gray \<lparr> img_height = 1, img_width = 5, img_gray = [0, 200, 200, 200, 200] \<rparr>))
        * 100 = 20
   \<and> validate_panorama_quality
        \<lparr> img_height = 1, img_width = 5, img_gray = [0, 200, 200, 200, 200] \<rparr>
        (double_round 1.2) 15.0
       = Inr False
   \<and> validate_panorama_quality
        \<lparr> img_height = 1, img_width = 5, img_gray = [0, 200, 200, 200, 200] \<rparr>
        (double_round 1.2) 20
       = Inr True"
  using validate_panorama_quality_rounded
      [of "\<lparr> img_height = 1, img_width = 1, img_gray = [255] \<rparr>" "double_round 1.2" "15.0"]
    validate_panorama_quality_rounded
      [of "\<lparr> img_height = 1, img_width = 5, img_gray = [0, 200, 200, 200, 200] \<rparr>"
          "double_round 1.2" 20]
  by (simp add: black_pixel_count_def float_mul_def float_of_nat_def double_round_literals
      double_round_eval)

text \<open>
  Claim C5 as stated fails. The image below is a hundred pixels wide and one high, and
  exactly seven of its hundred pixels have a grey level below 10: its width over height is
  above 1.2 and its percentage of such pixels is 7, which is at most the limit 7.0. The
  code computes the percentage as \<^verbatim>\<open>(7 / 100) * 100\<close> in double precision, which is
  \<^verbatim>\<open>7.000000000000001\<close>, and rejects the image.
\<close>

theorem validate_panorama_quality_seven_percent:
  "double_round 1.2
      \<le> real (img_width
           \<lparr> img_height = 1, img_width = 100, img_gray = replicate 7 0 @ replicate 93 200 \<rparr>)
        / real (img_height
           \<lparr> img_height = 1, img_width = 100, img_gray = replicate 7 0 @ replicate 93 200 \<rparr>)
   \<and> real (black_pixel_count (img_gray
           \<lparr> img_height = 1, img_width = 100, img_gray = replicate 7 0 @ replicate 93 200 \<rparr>))
        / real (length (img_gray
           \<lparr> img_height = 1, img_width = 100, img_gray = replicate 7 0 @ replicate 93 200 \<rparr>))
        * 100 \<le> 7
   \<and> float_mul (double_round (float_of_nat 7 / float_of_nat 100)) 100
       = 7881299347898369 / 1125899906842624
   \<and> validate_panorama_quality
        \<lparr> img_height = 1, img_width = 100, img_gray = replicate 7 0 @ replicate 93 200 \<rparr>
        (double_round 1.2) 7
       = Inr False"
  by (simp add: validate_panorama_quality_def black_pixel_count_def float_mul_def
      float_of_nat_def double_round_literals double_round_eval)

subsection \<open>Group builder\<close>

lemma extend_group_shape:
  "extend_group pm d g j = Inr (g', j') \<Longrightarrow>
     j \<le> j' \<and> g' = g @ [j + 1..<j' + 1] \<and> (j \<le> length pm \<longrightarrow> j' \<le> length pm)"
proof (induction pm d g j rule: extend_group.induct)
  case (1 pm d g j)
  show ?case
  proof (cases "j < length pm")
    case False
    with "1.prems" show ?thesis by (simp add: extend_group.simps [of pm d g j])
  next
    case True
    obtain p s mo where pj: "pm ! j = (p, s, mo)"
      by (cases "pm ! j") auto
    show ?thesis
    proof (cases "p \<and> (\<exists>m2. mo = Some m2 \<and> direction_of m2 = d)")
      case False
      with "1.prems" True pj show ?thesis
        by (auto simp add: extend_group.simps [of pm d g j] split: option.splits if_splits)
    next
      case c: True
      then obtain m2 where m2: "p" "mo = Some m2" "direction_of m2 = d" by blast
      from "1.prems" True pj m2
      have e: "extend_group pm d (g @ [j + 1]) (j + 1) = Inr (g', j')"
        by (simp add: extend_group.simps [of pm d g j])
      have ih: "j + 1 \<le> j' \<and> g' = (g @ [j + 1]) @ [j + 1 + 1..<j' + 1]
          \<and> (j + 1 \<le> length pm \<longrightarrow> j' \<le> length pm)"
        using "1.IH" [OF True pj [symmetric] _ _ m2(2)] pj m2 e by simp
      then have "[j + 1..<j' + 1] = (j + 1) # [j + 1 + 1..<j' + 1]"
        by (simp add: upt_conv_Cons)
      with ih True show ?thesis by simp
    qed
  qed
qed

lemma sorted_set_upt: "sorted_set [a..<b] = [a..<b]"
  by (simp add: sorted_set_def)

lemma extend_group_run:
  assumes "j0 \<le> j" and "j < length pm"
    and "\<forall>k. j0 \<le> k \<and> k < j \<longrightarrow>
           (\<exists>s m2. pm ! k = (True, s, Some m2) \<and> direction_of m2 = d)"
    and "fst (pm ! j) \<longrightarrow> (\<exists>m2. snd (snd (pm ! j)) = Some m2 \<and> direction_of m2 \<noteq> d)"
  shows "extend_group pm d g j0 = Inr (g @ [j0 + 1..<j + 1], j)"
  using assms(1,3)
proof (induction "j - j0" arbitrary: j0 g)
  case 0
  then have eq: "j0 = j" by simp
  obtain p s mo where pj: "pm ! j = (p, s, mo)" by (cases "pm ! j") auto
  show ?case
    using assms(2,4) pj unfolding eq
    by (subst extend_group.simps) auto
next
  case (Suc n)
  then have lt: "j0 < j" by simp
  with Suc.prems(2) obtain s m2 where
    k: "pm ! j0 = (True, s, Some m2)" "direction_of m2 = d" by blast
  have "extend_group pm d (g @ [j0 + 1]) (j0 + 1)
      = Inr ((g @ [j0 + 1]) @ [j0 + 1 + 1..<j + 1], j)"
    using Suc.hyps(1) [of "j0 + 1" "g @ [j0 + 1]"] Suc.hyps(2) Suc.prems(2) lt by simp
  moreover have "[j0 + 1..<j + 1] = (j0 + 1) # [j0 + 1 + 1..<j + 1]"
    using lt by (simp add: upt_conv_Cons)
  ultimately have "extend_group pm d (g @ [j0 + 1]) (j0 + 1) = Inr (g @ [j0 + 1..<j + 1], j)"
    by simp
  moreover have "j0 < length pm" using lt assms(2) by simp
  ultimately show ?case
    using k by (subst extend_group.simps) simp
qed

lemma chain_mono: "groups_chain lo n gs \<Longrightarrow> lo' \<le> lo \<Longrightarrow> groups_chain lo' n gs"
  by (cases gs) auto

lemma chain_Cons:
  assumes "groups_chain lo n (grp # rest)"
  shows "\<exists>h l. snd grp = [h..<Suc l] \<and> lo \<le> h \<and> h < l \<and> l \<le> n
            \<and> groups_chain (Suc l) n rest"
proof -
  from assms have "snd grp = [hd (snd grp)..<Suc (last (snd grp))]"
    and "lo \<le> hd (snd grp)" and "hd (snd grp) < last (snd grp)" and "last (snd grp) \<le> n"
    and "groups_chain (Suc (last (snd grp))) n rest"
    by (simp_all del: upt_Suc)
  then show ?thesis by blast
qed

lemma chain_positions:
  "groups_chain lo n gs \<Longrightarrow> grp \<in> set gs \<Longrightarrow> x \<in> set (snd grp) \<Longrightarrow> lo \<le> x \<and> x \<le> n"
proof (induction gs arbitrary: lo)
  case Nil
  then show ?case by simp
next
  case (Cons g0 rest)
  from chain_Cons [OF Cons.prems(1)] obtain h l where
    c: "snd g0 = [h..<Suc l]" "lo \<le> h" "h < l" "l \<le> n" "groups_chain (Suc l) n rest"
    by blast
  show ?case
  proof (cases "grp = g0")
    case True
    with Cons.prems(3) c show ?thesis by auto
  next
    case False
    with Cons.prems(2) have "grp \<in> set rest" by simp
    from Cons.IH [OF c(5) this Cons.prems(3)] c show ?thesis by simp
  qed
qed

lemma chain_ranges:
  "groups_chain lo n gs \<Longrightarrow> grp \<in> set gs \<Longrightarrow> \<exists>i k. i + 1 \<le> k \<and> snd grp = [i..<k + 1]"
proof (induction gs arbitrary: lo)
  case Nil
  then show ?case by simp
next
  case (Cons g0 rest)
  from chain_Cons [OF Cons.prems(1)] obtain h l where
    c: "snd g0 = [h..<Suc l]" "lo \<le> h" "h < l" "l \<le> n" "groups_chain (Suc l) n rest"
    by blast
  show ?case
  proof (cases "grp = g0")
    case True
    have "h + 1 \<le> l \<and> snd grp = [h..<l + 1]" using c True by simp
    then show ?thesis by blast
  next
    case False
    with Cons.prems(2) have "grp \<in> set rest" by simp
    from Cons.IH [OF c(5) this] show ?thesis .
  qed
qed

lemma chain_ordered:
  "groups_chain lo n gs \<Longrightarrow> a < b \<Longrightarrow> b < length gs \<Longrightarrow> x \<in> set (snd (gs ! a)) \<Longrightarrow>
     y \<in> set (snd (gs ! b)) \<Longrightarrow> x < y"
proof (induction gs arbitrary: lo a b)
  case Nil
  then show ?case by simp
next
  case (Cons g0 rest)
  from chain_Cons [OF Cons.prems(1)] obtain h l where
    c: "snd g0 = [h..<Suc l]" "lo \<le> h" "h < l" "l \<le> n" "groups_chain (Suc l) n rest"
    by blast
  from Cons.prems(2) obtain b' where b: "b = Suc b'" by (cases b) auto
  with Cons.prems(3) have b'len: "b' < length rest" by simp
  from Cons.prems(5) b have y: "y \<in> set (snd (rest ! b'))" by simp
  show ?case
  proof (cases a)
    case 0
    with Cons.prems(4) c(1) have "x \<le> l" by auto
    moreover have "rest ! b' \<in> set rest" using b'len by simp
    from chain_positions [OF c(5) this y] have "Suc l \<le> y" by simp
    ultimately show ?thesis by simp
  next
    case (Suc a')
    with Cons.prems(2,4) b have "a' < b'" "x \<in> set (snd (rest ! a'))" by simp_all
    from Cons.IH [OF c(5) this(1) b'len this(2) y] show ?thesis .
  qed
qed

lemma build_groups_shape:
  "build_groups mgl pm i acc = Inr gs \<Longrightarrow>
     \<exists>new. gs = acc @ new \<and> groups_chain i (length pm) new"
proof (induction mgl pm i acc rule: build_groups.induct)
  case (1 mgl pm i acc)
  show ?case
  proof (cases "i < length pm")
    case False
    with "1.prems" show ?thesis by (simp add: build_groups.simps [of mgl pm i acc])
  next
    case True
    obtain p s mo where pi: "pm ! i = (p, s, mo)"
      by (cases "pm ! i") auto
    show ?thesis
    proof (cases p)
      case False
      with "1.prems" True pi have "build_groups mgl pm (i + 1) acc = Inr gs"
        by (simp add: build_groups.simps [of mgl pm i acc])
      from "1.IH"(1) [OF True pi [symmetric] refl _ this] False
      obtain new where "gs = acc @ new" "groups_chain (i + 1) (length pm) new" by auto
      then show ?thesis using chain_mono [of "i + 1" "length pm" new i] by auto
    next
      case p: True
      show ?thesis
      proof (cases mo)
        case None
        with "1.prems" True pi p show ?thesis
          by (simp add: build_groups.simps [of mgl pm i acc])
      next
        case (Some m)
        show ?thesis
        proof (cases "extend_group pm (direction_of m) [i, i + 1] (i + 1)")
          case (Inl e)
          with "1.prems" True pi p Some show ?thesis
            by (simp add: build_groups.simps [of mgl pm i acc])
        next
          case (Inr gj)
          obtain g j where gj: "gj = (g, j)" by (cases gj) auto
          from extend_group_shape [of pm "direction_of m" "[i, i + 1]" "i + 1" g j] Inr gj
          have sh: "i + 1 \<le> j" "g = [i, i + 1] @ [i + 1 + 1..<j + 1]" "j \<le> length pm"
            using True by auto
          have g: "g = [i..<Suc j]"
            using sh(1,2) by (simp add: upt_conv_Cons del: upt_Suc)
          have ss: "sorted_set g = [i..<Suc j]"
            unfolding g by (rule sorted_set_upt)
          let ?acc = "if mgl \<le> int (length (sorted_set g))
               then acc @ [(direction_of m, sorted_set g)] else acc"
          from "1.prems" True pi p Some Inr gj
          have "build_groups mgl pm (j + 1) ?acc = Inr gs"
            by (simp add: build_groups.simps [of mgl pm i acc])
          from "1.IH"(2) [OF True pi [symmetric] refl _ Some Inr gj [symmetric] this] p
          obtain new where new: "gs = ?acc @ new" "groups_chain (j + 1) (length pm) new"
            by auto
          show ?thesis
          proof (cases "mgl \<le> int (length (sorted_set g))")
            case False
            with new have "gs = acc @ new" by simp
            moreover have "groups_chain i (length pm) new"
              using chain_mono [OF new(2), of i] sh(1) by simp
            ultimately show ?thesis by blast
          next
            case True
            with new have "gs = acc @ ((direction_of m, [i..<Suc j]) # new)"
              by (simp add: ss del: upt_Suc)
            moreover have "groups_chain i (length pm) ((direction_of m, [i..<Suc j]) # new)"
              using new(2) sh(1,3) by (simp add: hd_upt del: upt_Suc)
            ultimately show ?thesis by blast
          qed
        qed
      qed
    qed
  qed
qed

text \<open>
  Claim C2. On the classifications \<open>[T(+), T(+), F, T(+)]\<close> with \<open>min_group_len = 3\<close> the
  builder returns exactly one group, with direction \<open>1\<close> and positions \<open>[0, 1, 2]\<close>; the
  candidate opened at pair 3 stays \<open>[3, 4]\<close> and adds nothing to the groups.
\<close>

theorem group_builder_example:
  assumes "0 \<le> median_u m1" and "0 \<le> median_u m2" and "0 \<le> median_u m4"
    and "min_group_len cfg = 3"
  shows "group_builder cfg
           [(True, s1, Some m1), (True, s2, Some m2), (False, s3, mo3), (True, s4, Some m4)]
           = Inr [(1, [0, 1, 2])]
         \<and> extend_group
             [(True, s1, Some m1), (True, s2, Some m2), (False, s3, mo3), (True, s4, Some m4)]
             1 [3, 4] 4 = Inr ([3, 4], 4)
         \<and> build_groups 3
             [(True, s1, Some m1), (True, s2, Some m2), (False, s3, mo3), (True, s4, Some m4)]
             3 [(1, [0, 1, 2])] = Inr [(1, [0, 1, 2])]"
  using assms
  by (simp add: group_builder_def direction_of_def sorted_set_def
      build_groups.simps extend_group.simps)

theorem group_builder_example_witness:
  "0 \<le> median_u \<lparr> inlier_ratio = 1, median_u = 20, median_v = 0, resid = 0, scale = 1 \<rparr>
   \<and> min_group_len default_cfg = 3
   \<and> group_builder default_cfg
        [(True, 3, Some \<lparr> inlier_ratio = 1, median_u = 20, median_v = 0, resid = 0, scale = 1 \<rparr>),
         (True, 3, Some \<lparr> inlier_ratio = 1, median_u = 20, median_v = 0, resid = 0, scale = 1 \<rparr>),
         (False, 0, None),
         (True, 3, Some \<lparr> inlier_ratio = 1, median_u = 20, median_v = 0, resid = 0, scale = 1 \<rparr>)]
       = Inr [(1, [0, 1, 2])]"
  using group_builder_example
    [of "\<lparr> inlier_ratio = 1, median_u = 20, median_v = 0, resid = 0, scale = 1 \<rparr>"
        "\<lparr> inlier_ratio = 1, median_u = 20, median_v = 0, resid = 0, scale = 1 \<rparr>"
        "\<lparr> inlier_ratio = 1, median_u = 20, median_v = 0, resid = 0, scale = 1 \<rparr>"
        default_cfg 3 3 0 None 3]
  by (simp add: default_cfg_def)

text \<open>
  Every state of the outer loop leaves the result of the run unchanged when the builder is
  restarted from it, and the loop passes over the pairs that a group it opened has
  consumed.
\<close>

lemma scanning_build_groups:
  "scanning mgl pm i groups \<Longrightarrow> build_groups mgl pm 0 [] = build_groups mgl pm i groups"
proof (induction rule: scanning.induct)
  case start
  show ?case by simp
next
  case (skip i groups score mo)
  then show ?case by (simp add: build_groups.simps [of mgl pm i groups])
next
  case (close i groups score m g j)
  then show ?case by (simp add: build_groups.simps [of mgl pm i groups])
qed

lemma scanning_order:
  assumes "scanning mgl pm b gb" and "scanning mgl pm a ga" and "a < b"
    and "pm ! a = (True, s, Some m)"
    and "extend_group pm (direction_of m) [a, a + 1] (a + 1) = Inr (g, j)"
  shows "j + 1 \<le> b"
  using assms
proof (induction b arbitrary: a ga gb s m g j rule: less_induct)
  case (less b)
  from less.prems(1) show ?case
  proof cases
    case start
    with less.prems(3) show ?thesis by simp
  next
    case (skip b0 score mo)
    show ?thesis
    proof (cases "a = b0")
      case True
      with skip(4) less.prems(4) show ?thesis by simp
    next
      case False
      with less.prems(3) skip(1) have lt: "a < b0" by simp
      have "b0 < b" using skip(1) by simp
      from less.IH [OF this skip(2) less.prems(2) lt less.prems(4,5)] skip(1)
      show ?thesis by simp
    qed
  next
    case (close b0 gb0 score m0 g0 j0)
    from extend_group_shape [OF close(6)] have j0: "b0 + 1 \<le> j0" by simp
    then have b0b: "b0 < b" using close(1) by simp
    consider "a < b0" | "a = b0" | "b0 < a" by linarith
    then show ?thesis
    proof cases
      case 1
      from less.IH [OF b0b close(3) less.prems(2) 1 less.prems(4,5)] j0 close(1)
      show ?thesis by simp
    next
      case 2
      with close(5,6) less.prems(4,5) close(1) show ?thesis by simp
    next
      case 3
      from less.IH [OF less.prems(3) less.prems(2) close(3) 3 close(5,6)]
      have "j0 + 1 \<le> a" .
      with less.prems(3) close(1) show ?thesis by simp
    qed
  qed
qed

text \<open>
  Claim C3, as the code has it. Let the outer loop of the builder come to pair \<open>i\<close>
  (with the groups emitted so far), let pairs \<open>i\<close> to \<open>j - 1\<close> be pans of one
  direction and pair \<open>j\<close> a pan of the other direction. Then the group opened at \<open>i\<close> is
  closed with positions \<open>i..j\<close>, without the position \<open>j + 1\<close> that pair \<open>j\<close> leads to;
  the builder goes on from pair \<open>j + 1\<close>; the outer loop never comes to pair \<open>j\<close>, so
  that pair opens no group; and every group emitted from there on lies strictly after
  position \<open>j\<close>.
\<close>

theorem group_builder_reversal:
  assumes "scanning (min_group_len cfg) pm i groups"
    and "i < j" and "j < length pm"
    and "pm ! i = (True, s, Some m)"
    and "\<forall>k. i < k \<and> k < j \<longrightarrow>
           (\<exists>sk mk. pm ! k = (True, sk, Some mk) \<and> direction_of mk = direction_of m)"
    and "pm ! j = (True, sj, Some mj)"
    and "direction_of mj \<noteq> direction_of m"
  shows "extend_group pm (direction_of m) [i, i + 1] (i + 1) = Inr ([i..<j + 1], j)
     \<and> group_builder cfg pm =
         build_groups (min_group_len cfg) pm (j + 1)
           (if min_group_len cfg \<le> int (j + 1 - i)
            then groups @ [(direction_of m, [i..<j + 1])] else groups)
     \<and> scanning (min_group_len cfg) pm (j + 1)
           (if min_group_len cfg \<le> int (j + 1 - i)
            then groups @ [(direction_of m, [i..<j + 1])] else groups)
     \<and> (\<forall>acc. \<not> scanning (min_group_len cfg) pm j acc)
     \<and> (\<forall>gs. group_builder cfg pm = Inr gs \<longrightarrow>
           (\<exists>new. gs = (if min_group_len cfg \<le> int (j + 1 - i)
                          then groups @ [(direction_of m, [i..<j + 1])] else groups) @ new
                  \<and> (\<forall>grp \<in> set new. \<forall>x \<in> set (snd grp). j < x)))"
proof -
  let ?mgl = "min_group_len cfg"
  let ?groups = "if ?mgl \<le> int (j + 1 - i)
      then groups @ [(direction_of m, [i..<Suc j])] else groups"
  have "\<forall>k. i + 1 \<le> k \<and> k < j \<longrightarrow>
      (\<exists>s m2. pm ! k = (True, s, Some m2) \<and> direction_of m2 = direction_of m)"
    using assms(5) by auto
  moreover have "fst (pm ! j) \<longrightarrow>
      (\<exists>m2. snd (snd (pm ! j)) = Some m2 \<and> direction_of m2 \<noteq> direction_of m)"
    using assms(6,7) by simp
  ultimately have "extend_group pm (direction_of m) [i, i + 1] (i + 1)
      = Inr ([i, i + 1] @ [i + 1 + 1..<j + 1], j)"
    using extend_group_run [of "i + 1" j pm "direction_of m" "[i, i + 1]"] assms(2,3)
    by simp
  moreover have "[i, i + 1] @ [i + 1 + 1..<j + 1] = [i..<Suc j]"
    using assms(2) by (simp add: upt_conv_Cons del: upt_Suc)
  ultimately have ext: "extend_group pm (direction_of m) [i, i + 1] (i + 1)
      = Inr ([i..<Suc j], j)"
    by (simp only:)
  have len: "int (length [i..<Suc j]) = int (j + 1 - i)"
    using assms(2) by simp
  have ilen: "i < length pm" using assms(2,3) by simp
  have sc: "scanning ?mgl pm (j + 1) ?groups"
    using scanning.close [OF assms(1) ilen assms(4) ext]
    unfolding sorted_set_upt len .
  have gb: "group_builder cfg pm = build_groups ?mgl pm (j + 1) ?groups"
    unfolding group_builder_def by (rule scanning_build_groups [OF sc])
  have never: "\<not> scanning ?mgl pm j acc" for acc
  proof
    assume "scanning ?mgl pm j acc"
    from scanning_order [OF this assms(1,2,4) ext] show False by simp
  qed
  have later: "\<exists>new. gs = ?groups @ new \<and> (\<forall>grp \<in> set new. \<forall>x \<in> set (snd grp). j < x)"
    if "group_builder cfg pm = Inr gs" for gs
  proof -
    from that gb have "build_groups ?mgl pm (j + 1) ?groups = Inr gs" by simp
    from build_groups_shape [OF this] obtain new where
      new: "gs = ?groups @ new" "groups_chain (j + 1) (length pm) new" by blast
    have "\<forall>grp \<in> set new. \<forall>x \<in> set (snd grp). j < x"
      using chain_positions [OF new(2)] by fastforce
    with new(1) show ?thesis by blast
  qed
  show ?thesis
    using ext sc gb never later unfolding Suc_eq_plus1 by blast
qed

theorem group_builder_reversal_witness:
  "scanning (min_group_len default_cfg)
        [(False, 0, None),
         (True, 3, Some \<lparr> inlier_ratio = 1, median_u = 20, median_v = 0, resid = 0, scale = 1 \<rparr>),
         (True, 3, Some \<lparr> inlier_ratio = 1, median_u = 30, median_v = 0, resid = 0, scale = 1 \<rparr>),
         (True, 3, Some \<lparr> inlier_ratio = 1, median_u = - 20, median_v = 0, resid = 0, scale = 1 \<rparr>)]
        1 []
   \<and> (1::nat) < 3
   \<and> 3 < length
        [(False, 0, None),
         (True, 3, Some \<lparr> inlier_ratio = 1, median_u = 20, median_v = 0, resid = 0, scale = 1 \<rparr>),
         (True, 3, Some \<lparr> inlier_ratio = 1, median_u = 30, median_v = 0, resid = 0, scale = 1 \<rparr>),
         (True, 3, Some \<lparr> inlier_ratio = 1, median_u = - 20, median_v = 0, resid = 0, scale = 1 \<rparr>)]
   \<and> direction_of \<lparr> inlier_ratio = 1, median_u = - 20, median_v = 0, resid = 0, scale = 1 \<rparr>
       \<noteq> direction_of \<lparr> inlier_ratio = 1, median_u = 20, median_v = 0, resid = 0, scale = 1 \<rparr>
   \<and> direction_of \<lparr> inlier_ratio = 1, median_u = 30, median_v = 0, resid = 0, scale = 1 \<rparr>
       = direction_of \<lparr> inlier_ratio = 1, median_u = 20, median_v = 0, resid = 0, scale = 1 \<rparr>
   \<and> extend_group
        [(False, 0, None),
         (True, 3, Some \<lparr> inlier_ratio = 1, median_u = 20, median_v = 0, resid = 0, scale = 1 \<rparr>),
         (True, 3, Some \<lparr> inlier_ratio = 1, median_u = 30, median_v = 0, resid = 0, scale = 1 \<rparr>),
         (True, 3, Some \<lparr> inlier_ratio = 1, median_u = - 20, median_v = 0, resid = 0, scale = 1 \<rparr>)]
        1 [1, 2] 2 = Inr ([1, 2, 3], 3)
   \<and> group_builder default_cfg
        [(False, 0, None),
         (True, 3, Some \<lparr> inlier_ratio = 1, median_u = 20, median_v = 0, resid = 0, scale = 1 \<rparr>),
         (True, 3, Some \<lparr> inlier_ratio = 1, median_u = 30, median_v = 0, resid = 0, scale = 1 \<rparr>),
         (True, 3, Some \<lparr> inlier_ratio = 1, median_u = - 20, median_v = 0, resid = 0, scale = 1 \<rparr>)]
       = Inr [(1, [1, 2, 3])]
   \<and> scanning (min_group_len default_cfg)
        [(False, 0, None),
         (True, 3, Some \<lparr> inlier_ratio = 1, median_u = 20, median_v = 0, resid = 0, scale = 1 \<rparr>),
         (True, 3, Some \<lparr> inlier_ratio = 1, median_u = 30, median_v = 0, resid = 0, scale = 1 \<rparr>),
         (True, 3, Some \<lparr> inlier_ratio = 1, median_u = - 20, median_v = 0, resid = 0, scale = 1 \<rparr>)]
        4 [(1, [1, 2, 3])]"
proof -
  let ?m1 = "\<lparr> inlier_ratio = 1, median_u = 20, median_v = 0, resid = 0, scale = 1 \<rparr>"
  let ?m2 = "\<lparr> inlier_ratio = 1, median_u = 30, median_v = 0, resid = 0, scale = 1 \<rparr>"
  let ?m3 = "\<lparr> inlier_ratio = 1, median_u = - 20, median_v = 0, resid = 0, scale = 1 \<rparr>"
  let ?pm = "[(False, 0, None), (True, 3, Some ?m1), (True, 3, Some ?m2),
              (True, 3::real, Some ?m3)]"
  have h0: "scanning (min_group_len default_cfg) ?pm 1 []"
    using scanning.skip [OF scanning.start, where pair_metrics = ?pm and score = 0
        and mo = None and mgl = "min_group_len default_cfg"]
    by simp
  have h1: "(1::nat) < 3" by simp
  have h2: "3 < length ?pm" by simp
  have h3: "?pm ! 1 = (True, 3, Some ?m1)" by simp
  have h4: "\<forall>k. 1 < k \<and> k < 3 \<longrightarrow>
      (\<exists>sk mk. ?pm ! k = (True, sk, Some mk) \<and> direction_of mk = direction_of ?m1)"
  proof (intro allI impI)
    fix k :: nat
    assume "1 < k \<and> k < 3"
    then have "k = 2" by simp
    then show "\<exists>sk mk. ?pm ! k = (True, sk, Some mk) \<and> direction_of mk = direction_of ?m1"
      by (simp add: direction_of_def)
  qed
  have h5: "?pm ! 3 = (True, 3, Some ?m3)" by simp
  have h6: "direction_of ?m3 \<noteq> direction_of ?m1" by (simp add: direction_of_def)
  from group_builder_reversal [OF h0 h1 h2 h3 h4 h5 h6] h0
  show ?thesis
    by (simp add: default_cfg_def direction_of_def build_groups.simps extend_group.simps
        sorted_set_def upt_conv_Cons eval_nat_numeral)
qed

text \<open>
  Claim C3 as stated fails on \<open>[T(+), T(-), T(+), T(+)]\<close>. Pair 1 is a run of one pan
  to the left and pair 2 a pan to the right, yet the outer loop comes to pair 2 and the
  group it opens there, with positions \<open>[2, 3, 4]\<close>, is the one group emitted: the
  group opened at pair 0 was closed at pair 1, so scanning resumed at the reversing pair 2.
\<close>

theorem group_builder_reversal_seeds:
  "direction_of \<lparr> inlier_ratio = 1, median_u = - 20, median_v = 0, resid = 0, scale = 1 \<rparr> = - 1
   \<and> direction_of \<lparr> inlier_ratio = 1, median_u = 20, median_v = 0, resid = 0, scale = 1 \<rparr> = 1
   \<and> extend_group
        [(True, 3, Some \<lparr> inlier_ratio = 1, median_u = 20, median_v = 0, resid = 0, scale = 1 \<rparr>),
         (True, 3, Some \<lparr> inlier_ratio = 1, median_u = - 20, median_v = 0, resid = 0, scale = 1 \<rparr>),
         (True, 3, Some \<lparr> inlier_ratio = 1, median_u = 20, median_v = 0, resid = 0, scale = 1 \<rparr>),
         (True, 3, Some \<lparr> inlier_ratio = 1, median_u = 20, median_v = 0, resid = 0, scale = 1 \<rparr>)]
        1 [0, 1] 1 = Inr ([0, 1], 1)
   \<and> scanning (min_group_len default_cfg)
        [(True, 3, Some \<lparr> inlier_ratio = 1, median_u = 20, median_v = 0, resid = 0, scale = 1 \<rparr>),
         (True, 3, Some \<lparr> inlier_ratio = 1, median_u = - 20, median_v = 0, resid = 0, scale = 1 \<rparr>),
         (True, 3, Some \<lparr> inlier_ratio = 1, median_u = 20, median_v = 0, resid = 0, scale = 1 \<rparr>),
         (True, 3, Some \<lparr> inlier_ratio = 1, median_u = 20, median_v = 0, resid = 0, scale = 1 \<rparr>)]
        2 []
   \<and> group_builder default_cfg
        [(True, 3, Some \<lparr> inlier_ratio = 1, median_u = 20, median_v = 0, resid = 0, scale = 1 \<rparr>),
         (True, 3, Some \<lparr> inlier_ratio = 1, median_u = - 20, median_v = 0, resid = 0, scale = 1 \<rparr>),
         (True, 3, Some \<lparr> inlier_ratio = 1, median_u = 20, median_v = 0, resid = 0, scale = 1 \<rparr>),
         (True, 3, Some \<lparr> inlier_ratio = 1, median_u = 20, median_v = 0, resid = 0, scale = 1 \<rparr>)]
       = Inr [(1, [2, 3, 4])]"
proof -
  let ?m1 = "\<lparr> inlier_ratio = 1, median_u = 20, median_v = 0, resid = 0, scale = 1 \<rparr>"
  let ?m2 = "\<lparr> inlier_ratio = 1, median_u = - 20, median_v = 0, resid = 0, scale = 1 \<rparr>"
  let ?pm = "[(True, 3, Some ?m1), (True, 3, Some ?m2), (True, 3, Some ?m1),
              (True, 3::real, Some ?m1)]"
  have d: "direction_of ?m2 = - 1" "direction_of ?m1 = 1"
    by (simp_all add: direction_of_def)
  have e: "extend_group ?pm (direction_of ?m1) [0, 0 + 1] (0 + 1) = Inr ([0, 1], 1)"
    by (simp add: extend_group.simps direction_of_def)
  have s: "scanning (min_group_len default_cfg) ?pm 2 []"
    using scanning.close [OF scanning.start _ _ e, of 3 "min_group_len default_cfg"]
    by (simp add: default_cfg_def sorted_set_def numeral_2_eq_2)
  have g: "group_builder default_cfg ?pm = Inr [(1, [2, 3, 4])]"
    by (simp add: group_builder_def default_cfg_def direction_of_def sorted_set_def
        build_groups.simps extend_group.simps)
  from d e s g show ?thesis by simp
qed

text \<open>
  Claim C9. Every group the builder emits is a range of consecutive positions
  \<open>i, i + 1, ..., k\<close> with \<open>k \<ge> i + 1\<close>, and every position of an earlier group is
  strictly smaller than every position of a later group, so no two groups share a
  sampled frame.
\<close>

theorem group_builder_ranges:
  assumes "group_builder cfg pm = Inr gs"
  shows "(\<forall>grp \<in> set gs. \<exists>i k. i + 1 \<le> k \<and> snd grp = [i..<k + 1])
     \<and> (\<forall>a b. a < b \<and> b < length gs \<longrightarrow>
           (\<forall>x \<in> set (snd (gs ! a)). \<forall>y \<in> set (snd (gs ! b)). x < y))"
proof -
  from assms build_groups_shape [of "min_group_len cfg" pm 0 "[]" gs]
  have ch: "groups_chain 0 (length pm) gs"
    by (simp add: group_builder_def)
  have "\<forall>grp \<in> set gs. \<exists>i k. i + 1 \<le> k \<and> snd grp = [i..<k + 1]"
    using chain_ranges [OF ch] by blast
  moreover have "\<forall>a b. a < b \<and> b < length gs \<longrightarrow>
           (\<forall>x \<in> set (snd (gs ! a)). \<forall>y \<in> set (snd (gs ! b)). x < y)"
    using chain_ordered [OF ch] by blast
  ultimately show ?thesis by blast
qed

theorem group_builder_ranges_witness:
  "group_builder (default_cfg \<lparr> min_group_len := 2 \<rparr>)
     [(True, 3, Some demo_motion), (True, 3, Some demo_motion),
      (True, 3, Some (demo_motion \<lparr> median_u := - 20 \<rparr>)),
      (True, 3, Some (demo_motion \<lparr> median_u := - 20 \<rparr>))]
     = Inr [(1, [0, 1, 2]), (- 1, [3, 4])]
   \<and> [0, 1, 2] = [0..<2 + 1] \<and> [3, 4] = [3..<4 + 1] \<and> (2::nat) < 3"
proof -
  have h: "group_builder (default_cfg \<lparr> min_group_len := 2 \<rparr>)
     [(True, 3, Some demo_motion), (True, 3, Some demo_motion),
      (True, 3, Some (demo_motion \<lparr> median_u := - 20 \<rparr>)),
      (True, 3, Some (demo_motion \<lparr> median_u := - 20 \<rparr>))]
     = Inr [(1, [0, 1, 2]), (- 1, [3, 4])]"
    by (simp add: group_builder_def default_cfg_def demo_motion_def direction_of_def
        sorted_set_def build_groups.simps extend_group.simps)
  from group_builder_ranges [OF h] h show ?thesis
    by (simp add: upt_conv_Cons)
qed

lemma length_compute_pair_metrics:
  "compute_pair_metrics env cfg sampled = Inr pm \<Longrightarrow> length pm = length sampled - 1"
  by (induction env cfg sampled arbitrary: pm rule: compute_pair_metrics.induct)
    (auto split: option.splits sum.splits prod.splits)

text \<open>
  Claim C10. Whatever the minimum group length, every emitted group has at least two
  positions and each of them indexes the sampled-frame list the pairs were computed from;
  hence the export selection is never given an empty list and \<^verbatim>\<open>pick_subset\<close>
  returns without an index error, for every step.
\<close>

theorem groups_valid_for_export:
  assumes "compute_pair_metrics env cfg sampled = Inr pm"
    and "build_groups mgl pm 0 [] = Inr gs"
    and "grp \<in> set gs"
  shows "2 \<le> length (snd grp)
     \<and> (\<forall>x \<in> set (snd grp). x < length sampled)
     \<and> (\<exists>out. pick_subset (snd grp) step = Inr out)
     \<and> (\<exists>out. select_export cfg' (snd grp) = Inr out)"
proof -
  from build_groups_shape [OF assms(2)]
  have ch: "groups_chain 0 (length pm) gs" by simp
  from chain_ranges [OF ch assms(3)] obtain i k where
    ik: "i + 1 \<le> k" "snd grp = [i..<k + 1]" by blast
  then have len: "2 \<le> length (snd grp)" by simp
  then have ne: "snd grp \<noteq> []" by auto
  have pos: "\<forall>x \<in> set (snd grp). x \<le> length pm"
    using chain_positions [OF ch assms(3)] by blast
  from ik have "k \<in> set (snd grp)" by simp
  with pos have "0 < length pm" using ik(1) by fastforce
  with length_compute_pair_metrics [OF assms(1)] have "length sampled = length pm + 1"
    by simp
  with pos have valid: "\<forall>x \<in> set (snd grp). x < length sampled" by fastforce
  have p1: "\<exists>out. pick_subset (snd grp) step = Inr out"
    using pick_subset_nonempty [OF ne, of step] by blast
  have p2: "\<exists>out. select_export cfg' (snd grp) = Inr out"
    using pick_subset_nonempty [OF ne, of heuristic_step]
    by (auto simp add: select_export_def)
  from len valid p1 p2 show ?thesis by blast
qed

theorem groups_valid_for_export_witness:
  "compute_pair_metrics (demo_env 0) default_cfg [(0, 0), (3, 3), (6, 6)]
     = Inr [(True, double_round (31 / 10), Some demo_motion), (True, double_round (31 / 10), Some demo_motion)]
   \<and> build_groups 0 [(True, double_round (31 / 10), Some demo_motion), (True, double_round (31 / 10), Some demo_motion)] 0 []
     = Inr [(1, [0, 1, 2])]
   \<and> (1, [0, 1, 2]) \<in> set [(1::int, [0, 1, 2::nat])]
   \<and> 2 \<le> length (snd (1::int, [0, 1, 2::nat]))
   \<and> (2::nat) < length [(0::nat, 0::nat), (3, 3), (6, 6)]
   \<and> pick_subset (snd (1::int, [0, 1, 2::nat])) 2 = Inr [0, 2]
   \<and> select_export default_cfg (snd (1::int, [0, 1, 2::nat])) = Inr [0, 2]"
proof -
  have h1: "compute_pair_metrics (demo_env 0) default_cfg [(0, 0), (3, 3), (6, 6)]
     = Inr [(True, double_round (31 / 10), Some demo_motion), (True, double_round (31 / 10), Some demo_motion)]"
    by (simp add: demo_env_def default_cfg_def is_horizontal_pan_def pan_ok_def
        pan_score_def py_truediv_def demo_motion_def float_add_def float_sub_def
        float_mul_def double_round_literals double_round_eval)
  have h2: "build_groups 0
      [(True, double_round (31 / 10), Some demo_motion), (True, double_round (31 / 10), Some demo_motion)] 0 []
     = Inr [(1, [0, 1, 2])]"
    by (simp add: demo_motion_def direction_of_def sorted_set_def build_groups.simps
        extend_group.simps)
  have h3: "(1, [0, 1, 2]) \<in> set [(1::int, [0, 1, 2::nat])]" by simp
  from groups_valid_for_export [OF h1 h2 h3, of 2 default_cfg] h1 h2 h3
  show ?thesis
    by (simp add: pick_subset_def select_export_def heuristic_step_def default_cfg_def)
qed

subsection \<open>Export and stitching\<close>

lemma export_groups_iff:
  "export_groups env cfg prefix sampled gid groups = Inr rs \<longleftrightarrow>
     length rs = length groups
     \<and> (\<forall>k<length groups.
           export_group env cfg prefix sampled (gid + k) (groups ! k) = Inr (rs ! k))"
proof (induction groups arbitrary: gid rs)
  case Nil
  show ?case by auto
next
  case (Cons grp rest)
  show ?case
  proof (cases rs)
    case Nil
    then show ?thesis by (auto split: sum.splits)
  next
    case (Cons r rs')
    have "export_groups env cfg prefix sampled gid (grp # rest) = Inr (r # rs') \<longleftrightarrow>
        export_group env cfg prefix sampled gid grp = Inr r
        \<and> export_groups env cfg prefix sampled (gid + 1) rest = Inr rs'"
      by (auto split: sum.splits)
    also have "\<dots> \<longleftrightarrow> export_group env cfg prefix sampled gid grp = Inr r
        \<and> length rs' = length rest
        \<and> (\<forall>k<length rest.
              export_group env cfg prefix sampled (gid + 1 + k) (rest ! k) = Inr (rs' ! k))"
      using Cons.IH [of "gid + 1" rs'] by simp
    also have "\<dots> \<longleftrightarrow> length (r # rs') = length (grp # rest)
        \<and> (\<forall>k<length (grp # rest).
              export_group env cfg prefix sampled (gid + k) ((grp # rest) ! k)
                = Inr ((r # rs') ! k))"
      by (simp add: All_less_Suc2) blast
    finally show ?thesis using Cons by simp
  qed
qed

lemma upload_frames_indices:
  "upload_frames env cfg prefix sampled gid ex = Inr (uris, fidxs) \<Longrightarrow>
     fidxs = map (\<lambda>s. fst (sampled ! s)) ex \<and> length uris = length ex"
proof (induction ex arbitrary: uris fidxs)
  case Nil
  then show ?case by simp
next
  case (Cons sidx rest)
  then show ?case
    by (auto split: if_splits prod.splits sum.splits)
qed

lemma stitch_stage_Some:
  assumes "stitch_stage env cfg prefix sampled gid ex = Inr (Some u)"
  shows "stitch cfg \<and> 2 \<le> length ex
     \<and> (\<exists>pano. stitch_group env (map (\<lambda>s. snd (sampled ! s)) ex) (stitch_warper cfg)
                  (stitch_warper_scale cfg) = Inr (Stitcher_OK, pano)
          \<and> validate_panorama_quality pano
               (case min_pano_aspect_ratio cfg of None \<Rightarrow> double_round (12 / 10) | Some r \<Rightarrow> r)
               (case max_black_border_percent cfg of None \<Rightarrow> 15 | Some b \<Rightarrow> b) = Inr True)"
  using assms
  by (auto simp add: stitch_stage_def Let_def split: if_splits sum.splits prod.splits)

lemma stitch_stage_None:
  assumes "\<not> stitch cfg \<or> length ex < 2
     \<or> stitch_group env (map (\<lambda>s. snd (sampled ! s)) ex) (stitch_warper cfg)
          (stitch_warper_scale cfg) = Inr (st, pano)
        \<and> (st \<noteq> Stitcher_OK
           \<or> validate_panorama_quality pano
               (case min_pano_aspect_ratio cfg of None \<Rightarrow> double_round (12 / 10) | Some r \<Rightarrow> r)
               (case max_black_border_percent cfg of None \<Rightarrow> 15 | Some b \<Rightarrow> b) = Inr False)"
  shows "stitch_stage env cfg prefix sampled gid ex = Inr None"
  using assms
  by (auto simp add: stitch_stage_def Let_def split: if_splits sum.splits prod.splits)

text \<open>
  Claim C6. Let the stages before export have produced the sampled frames and the groups.
  Then (1) a pipeline run that returns has one result per group, each the export of that
  group; (2) a group result carries a panorama location only if stitching is enabled, at
  least two frames were exported, the stitcher returned the success status and the gate
  accepted its image; (3) when stitching is disabled, or fewer than two frames are
  exported, or the stitcher returns a failure status, or the gate rejects, the export of
  the group still returns its result, with the exported frame numbers and locations and
  without a panorama location; (4) if every group's export returns, the pipeline returns.
\<close>

theorem stitch_failure_non_fatal:
  assumes dg: "detect_groups env cfg video = Inr (sampled, groups)"
  shows
    "(detect_pan_groups_from_video env video prefix cfg = Inr res \<longrightarrow>
        length (res_groups res) = length groups
        \<and> (\<forall>k<length groups.
              export_group env cfg prefix sampled (k + 1) (groups ! k)
                = Inr (res_groups res ! k)))
     \<and> (export_group env cfg prefix sampled gid grp = Inr r \<and> gr_pano_uri r = Some u \<longrightarrow>
          stitch cfg
          \<and> (\<exists>ex pano. select_export cfg (snd grp) = Inr ex \<and> 2 \<le> length ex
                \<and> stitch_group env (map (\<lambda>s. snd (sampled ! s)) ex) (stitch_warper cfg)
                     (stitch_warper_scale cfg) = Inr (Stitcher_OK, pano)
                \<and> validate_panorama_quality pano
                     (case min_pano_aspect_ratio cfg of None \<Rightarrow> double_round (12 / 10) | Some r \<Rightarrow> r)
                     (case max_black_border_percent cfg of None \<Rightarrow> 15 | Some b \<Rightarrow> b)
                   = Inr True))
     \<and> (select_export cfg (snd grp') = Inr ex'
          \<and> upload_frames env cfg prefix sampled gid' ex' = Inr (uris, fidxs)
          \<and> (\<not> stitch cfg \<or> length ex' < 2
              \<or> stitch_group env (map (\<lambda>s. snd (sampled ! s)) ex') (stitch_warper cfg)
                   (stitch_warper_scale cfg) = Inr (st, pano')
                 \<and> (st \<noteq> Stitcher_OK
                    \<or> validate_panorama_quality pano'
                         (case min_pano_aspect_ratio cfg of None \<Rightarrow> double_round (12 / 10) | Some r \<Rightarrow> r)
                         (case max_black_border_percent cfg of None \<Rightarrow> 15 | Some b \<Rightarrow> b)
                       = Inr False)) \<longrightarrow>
          export_group env cfg prefix sampled gid' grp'
            = Inr \<lparr> gr_id = gid',
                    gr_direction = (if fst grp' = 1 then ''right'' else ''left''),
                    gr_frame_indices = map (\<lambda>s. fst (sampled ! s)) ex',
                    gr_frame_uris = uris, gr_pano_uri = None \<rparr>)
     \<and> ((\<forall>k<length groups. \<exists>r'.
            export_group env cfg prefix sampled (k + 1) (groups ! k) = Inr r') \<longrightarrow>
          (\<exists>res'. detect_pan_groups_from_video env video prefix cfg = Inr res'
             \<and> length (res_groups res') = length groups))"
proof (intro conjI impI)
  assume run: "detect_pan_groups_from_video env video prefix cfg = Inr res"
  then have eg: "export_groups env cfg prefix sampled 1 groups = Inr (res_groups res)"
    using dg by (auto simp add: detect_pan_groups_from_video_def split: sum.splits)
  from eg show "length (res_groups res) = length groups"
    by (simp add: export_groups_iff)
  from eg show "\<forall>k<length groups.
      export_group env cfg prefix sampled (k + 1) (groups ! k) = Inr (res_groups res ! k)"
    by (simp add: export_groups_iff add.commute)
next
  assume a: "export_group env cfg prefix sampled gid grp = Inr r \<and> gr_pano_uri r = Some u"
  then obtain ex uris' fidxs' p where
    se: "select_export cfg (snd grp) = Inr ex"
    and up: "upload_frames env cfg prefix sampled gid ex = Inr (uris', fidxs')"
    and ss: "stitch_stage env cfg prefix sampled gid ex = Inr p"
    and r: "gr_pano_uri r = (case p of None \<Rightarrow> None | Some u \<Rightarrow> if u = [] then None else Some u)"
    by (auto simp add: export_group_def split: sum.splits prod.splits)
  from a r obtain u' where "p = Some u'"
    by (cases p) auto
  with ss stitch_stage_Some [of env cfg prefix sampled gid ex u']
  have st: "stitch cfg \<and> 2 \<le> length ex
     \<and> (\<exists>pano. stitch_group env (map (\<lambda>s. snd (sampled ! s)) ex) (stitch_warper cfg)
                  (stitch_warper_scale cfg) = Inr (Stitcher_OK, pano)
          \<and> validate_panorama_quality pano
               (case min_pano_aspect_ratio cfg of None \<Rightarrow> double_round (12 / 10) | Some r \<Rightarrow> r)
               (case max_black_border_percent cfg of None \<Rightarrow> 15 | Some b \<Rightarrow> b) = Inr True)"
    by simp
  then show "stitch cfg" by simp
  from st se show "\<exists>ex pano. select_export cfg (snd grp) = Inr ex \<and> 2 \<le> length ex
      \<and> stitch_group env (map (\<lambda>s. snd (sampled ! s)) ex) (stitch_warper cfg)
           (stitch_warper_scale cfg) = Inr (Stitcher_OK, pano)
      \<and> validate_panorama_quality pano
           (case min_pano_aspect_ratio cfg of None \<Rightarrow> double_round (12 / 10) | Some r \<Rightarrow> r)
           (case max_black_border_percent cfg of None \<Rightarrow> 15 | Some b \<Rightarrow> b) = Inr True"
    by blast
next
  assume a: "select_export cfg (snd grp') = Inr ex'
      \<and> upload_frames env cfg prefix sampled gid' ex' = Inr (uris, fidxs)
      \<and> (\<not> stitch cfg \<or> length ex' < 2
          \<or> stitch_group env (map (\<lambda>s. snd (sampled ! s)) ex') (stitch_warper cfg)
               (stitch_warper_scale cfg) = Inr (st, pano')
             \<and> (st \<noteq> Stitcher_OK
                \<or> validate_panorama_quality pano'
                     (case min_pano_aspect_ratio cfg of None \<Rightarrow> double_round (12 / 10) | Some r \<Rightarrow> r)
                     (case max_black_border_percent cfg of None \<Rightarrow> 15 | Some b \<Rightarrow> b)
                   = Inr False))"
  then have ss: "stitch_stage env cfg prefix sampled gid' ex' = Inr None"
    using stitch_stage_None [of cfg ex' env sampled st pano' prefix gid'] by blast
  from a have "fidxs = map (\<lambda>s. fst (sampled ! s)) ex'"
    using upload_frames_indices [of env cfg prefix sampled gid' ex' uris fidxs] by blast
  with a ss show "export_group env cfg prefix sampled gid' grp'
            = Inr \<lparr> gr_id = gid',
                    gr_direction = (if fst grp' = 1 then ''right'' else ''left''),
                    gr_frame_indices = map (\<lambda>s. fst (sampled ! s)) ex',
                    gr_frame_uris = uris, gr_pano_uri = None \<rparr>"
    by (simp add: export_group_def)
next
  assume a: "\<forall>k<length groups. \<exists>r'.
      export_group env cfg prefix sampled (k + 1) (groups ! k) = Inr r'"
  define rs where
    "rs = map (\<lambda>k. projr (export_group env cfg prefix sampled (k + 1) (groups ! k)))
            [0..<length groups]"
  have "length rs = length groups" by (simp add: rs_def)
  moreover have "\<forall>k<length groups.
      export_group env cfg prefix sampled (1 + k) (groups ! k) = Inr (rs ! k)"
    using a by (auto simp add: rs_def)
  ultimately have "export_groups env cfg prefix sampled 1 groups = Inr rs"
    by (simp add: export_groups_iff)
  with dg \<open>length rs = length groups\<close>
  show "\<exists>res'. detect_pan_groups_from_video env video prefix cfg = Inr res'
      \<and> length (res_groups res') = length groups"
    by (simp add: detect_pan_groups_from_video_def)
qed

theorem stitch_failure_non_fatal_witness:
  "detect_groups (demo_env 1) (default_cfg \<lparr> stitch := True \<rparr>) demo_video
     = Inr ([(0, 0), (3, 3), (6, 6)], [(1, [0, 1, 2])])
   \<and> stitch_group (demo_env 1) [0, 6] ''cylindrical'' 1 = Inr (1, demo_pano)
   \<and> (1::int) \<noteq> Stitcher_OK
   \<and> detect_pan_groups_from_video (demo_env 1) demo_video ''out''
        (default_cfg \<lparr> stitch := True \<rparr>)
      = Inr \<lparr> res_video_meta =
                \<lparr> vm_total_frames = 9, vm_fps = 30, vm_width = 1920, vm_height = 1080,
                  vm_sample_every = 3 \<rparr>,
              res_groups =
                [\<lparr> gr_id = 1, gr_direction = ''right'', gr_frame_indices = [0, 6],
                   gr_frame_uris = [''out/frame'', ''out/frame''], gr_pano_uri = None \<rparr>] \<rparr>
   \<and> detect_groups (demo_env 0) (default_cfg \<lparr> stitch := True \<rparr>) demo_video
     = Inr ([(0, 0), (3, 3), (6, 6)], [(1, [0, 1, 2])])
   \<and> stitch_group (demo_env 0) [0, 6] ''cylindrical'' 1 = Inr (Stitcher_OK, demo_pano)
   \<and> validate_panorama_quality demo_pano (double_round (12 / 10)) 15 = Inr True
   \<and> detect_pan_groups_from_video (demo_env 0) demo_video ''out''
        (default_cfg \<lparr> stitch := True \<rparr>)
      = Inr \<lparr> res_video_meta =
                \<lparr> vm_total_frames = 9, vm_fps = 30, vm_width = 1920, vm_height = 1080,
                  vm_sample_every = 3 \<rparr>,
              res_groups =
                [\<lparr> gr_id = 1, gr_direction = ''right'', gr_frame_indices = [0, 6],
                   gr_frame_uris = [''out/frame'', ''out/frame''],
                   gr_pano_uri = Some ''out/pano'' \<rparr>] \<rparr>"
proof -
  have dg: "detect_groups (demo_env st) (default_cfg \<lparr> stitch := True \<rparr>) demo_video
     = Inr ([(0, 0), (3, 3), (6, 6)], [(1, [0, 1, 2])])" for st
    by (simp add: detect_groups_def demo_env_def default_cfg_def demo_video_def
        frame_is_sharp_def is_horizontal_pan_def pan_ok_def pan_score_def py_truediv_def
        demo_motion_def group_builder_def build_groups.simps extend_group.simps
        direction_of_def sorted_set_def float_add_def float_sub_def float_mul_def
        double_round_literals double_round_eval)
  have eg: "export_groups (demo_env st) (default_cfg \<lparr> stitch := True \<rparr>) ''out''
      [(0, 0), (3, 3), (6, 6)] 1 [(1, [0, 1, 2])]
     = Inr [\<lparr> gr_id = 1, gr_direction = ''right'', gr_frame_indices = [0, 6],
               gr_frame_uris = [''out/frame'', ''out/frame''],
               gr_pano_uri = (if st = 0 then Some ''out/pano'' else None) \<rparr>]" for st
    by (simp add: export_group_def select_export_def heuristic_step_def pick_subset_def
        stitch_stage_def demo_env_def default_cfg_def Stitcher_OK_def demo_pano_def
        validate_panorama_quality_def black_pixel_count_def float_mul_def float_of_nat_def
        double_round_literals double_round_eval)
  have run: "detect_pan_groups_from_video (demo_env st) demo_video ''out''
        (default_cfg \<lparr> stitch := True \<rparr>)
      = Inr \<lparr> res_video_meta =
                \<lparr> vm_total_frames = 9, vm_fps = 30, vm_width = 1920, vm_height = 1080,
                  vm_sample_every = 3 \<rparr>,
              res_groups =
                [\<lparr> gr_id = 1, gr_direction = ''right'', gr_frame_indices = [0, 6],
                   gr_frame_uris = [''out/frame'', ''out/frame''],
                   gr_pano_uri = (if st = 0 then Some ''out/pano'' else None) \<rparr>] \<rparr>" for st
    unfolding detect_pan_groups_from_video_def dg sum.case prod.case eg
    by (simp add: demo_video_def default_cfg_def)
  have sg: "stitch_group (demo_env st) [0, 6] ''cylindrical'' 1 = Inr (st, demo_pano)" for st
    by (simp add: demo_env_def)
  have vp: "validate_panorama_quality demo_pano (double_round (12 / 10)) 15 = Inr True"
    by (simp add: validate_panorama_quality_def demo_pano_def black_pixel_count_def
        float_mul_def float_of_nat_def double_round_literals double_round_eval)
  show ?thesis
    using stitch_failure_non_fatal [OF dg [of 1], where prefix = "''out''"]
      stitch_failure_non_fatal [OF dg [of 0], where prefix = "''out''"]
      dg [of 0] dg [of 1] run [of 0] run [of 1] sg [of 0] sg [of 1] vp
    by (simp add: Stitcher_OK_def)
qed

subsection \<open>The configured overlap target\<close>

lemma pan_score_target:
  "pan_score m (cfg \<lparr> export_overlap_target := t \<rparr>) = pan_score m cfg"
  by (simp add: pan_score_def cong: sum.case_cong)

lemma is_horizontal_pan_target:
  "is_horizontal_pan mo (cfg \<lparr> export_overlap_target := t \<rparr>) = is_horizontal_pan mo cfg"
  by (simp add: is_horizontal_pan_def pan_ok_def pan_score_target cong: option.case_cong)

lemma sample_loop_target:
  "sample_loop env (cfg \<lparr> export_overlap_target := t \<rparr>) fidx frames sampled
     = sample_loop env cfg fidx frames sampled"
  by (induction frames arbitrary: fidx sampled) (simp_all split: if_splits)

lemma compute_pair_metrics_target:
  "compute_pair_metrics env (cfg \<lparr> export_overlap_target := t \<rparr>) sampled
     = compute_pair_metrics env cfg sampled"
  by (induction env cfg sampled rule: compute_pair_metrics.induct)
    (simp_all add: is_horizontal_pan_target split: option.splits sum.splits prod.splits)

lemma upload_frames_target:
  "upload_frames env (cfg \<lparr> export_overlap_target := t \<rparr>) prefix sampled gid idxs
     = upload_frames env cfg prefix sampled gid idxs"
  by (induction idxs) (simp_all split: prod.splits sum.splits)

lemma export_group_target:
  "export_group env (cfg \<lparr> export_overlap_target := t \<rparr>) prefix sampled gid grp
     = export_group env cfg prefix sampled gid grp"
  by (simp add: export_group_def select_export_def stitch_stage_def upload_frames_target
      split: sum.splits prod.splits)

lemma export_groups_target:
  "export_groups env (cfg \<lparr> export_overlap_target := t \<rparr>) prefix sampled gid groups
     = export_groups env cfg prefix sampled gid groups"
  by (induction groups arbitrary: gid)
    (simp_all add: export_group_target split: sum.splits)

lemma detect_groups_target:
  "detect_groups env (cfg \<lparr> export_overlap_target := t \<rparr>) video
     = detect_groups env cfg video"
  by (simp add: detect_groups_def sample_loop_target compute_pair_metrics_target
      group_builder_def split: sum.splits)

text \<open>
  Claim C8. Two configurations that differ only in \<open>export_overlap_target\<close> give the same
  pipeline outcome on the same video and capabilities: the key is never read. The export
  step is the constant 2, and with \<open>export_all_in_group\<close> false the selection is
  \<^verbatim>\<open>pick_subset\<close> with that step.
\<close>

theorem export_overlap_target_unused:
  "detect_pan_groups_from_video env video prefix (cfg \<lparr> export_overlap_target := t \<rparr>)
     = detect_pan_groups_from_video env video prefix cfg
   \<and> heuristic_step = 2
   \<and> select_export (cfg \<lparr> export_all_in_group := False, export_overlap_target := t \<rparr>) idxs
       = pick_subset idxs 2"
  by (simp add: detect_pan_groups_from_video_def detect_groups_target export_groups_target
      heuristic_step_def select_export_def split: sum.splits prod.splits)

end
